theory Spec2Isabelle
  imports Main "HOL-Library.Multiset"
begin

section \<open>Values held by the workspace store\<close>

text \<open>
  The embedding follows the latest revision of \<^verbatim>\<open>WorkspaceManager\<close> in
  \<^verbatim>\<open>src/workspace-manager.ts\<close> (the one with the development logger) and the latest
  revision of the plugin class (\<^verbatim>\<open>WorkspaceNavigator\<close>, the one with the save queue).

  A name is a \<^typ>\<open>string\<close>: the list of the name's UTF-16 code units, for code units
  below 256. The layout blob returned by \<^verbatim>\<open>app.workspace.getLayout()\<close> is opaque
  to the manager; it is always an object, hence truthy.
\<close>

datatype layoutBlob = LayoutBlob string

text \<open>
  \<^verbatim>\<open>folderExpandState\<close>: what the host keeps under the local-storage key
  \<^verbatim>\<open>file-explorer-unfold\<close> is an array of folder paths, or \<^verbatim>\<open>null\<close> when nothing is
  stored; a record saved without folder state holds \<^verbatim>\<open>undefined\<close>.
\<close>

datatype folderState = FUndefined | FNull | FPaths "string list"

text \<open>JavaScript truthiness: an array is truthy, also when it is empty.\<close>

fun truthyFolderState :: "folderState \<Rightarrow> bool" where
  "truthyFolderState FUndefined = False"
| "truthyFolderState FNull = False"
| "truthyFolderState (FPaths ps) = True"

record workspaceMetadata =
  description :: "string option"
  tags :: "string list option"

record WorkspaceData =
  layout :: layoutBlob
  lastSaved :: nat
  folderExpandState :: folderState
  metadata :: "workspaceMetadata option"

section \<open>The workspaces object\<close>

text \<open>
  \<^verbatim>\<open>storage.workspaces\<close> is a plain JavaScript object (an object literal, or what
  \<^verbatim>\<open>JSON.parse\<close> built from the plugin's data file) used as a dictionary. The manager
  reads it with \<^verbatim>\<open>name in obj\<close>, \<^verbatim>\<open>obj[name]\<close>, \<^verbatim>\<open>Object.keys(obj)\<close> and writes it with
  \<^verbatim>\<open>obj[name] = v\<close> and \<^verbatim>\<open>delete obj[name]\<close>. These are modelled as ECMAScript defines
  them on an ordinary object:
  \<^item> the own properties, in creation order;
  \<^item> the prototype: \<^verbatim>\<open>Object.prototype\<close>, whose property names \<^verbatim>\<open>in\<close> and
    \<^verbatim>\<open>obj[name]\<close> also find, or the record that an assignment to the name
    \<^verbatim>\<open>__proto__\<close> installed (that assignment runs the inherited setter and creates
    no own property).

  A value read from the object is a workspace record, some other truthy value (an
  inherited built-in function, \<^verbatim>\<open>Object.prototype\<close>, a layout blob, a timestamp, a path
  array: none of them has a \<^verbatim>\<open>layout\<close> or a \<^verbatim>\<open>folderExpandState\<close> property), or a
  falsy value (\<^verbatim>\<open>undefined\<close>, \<^verbatim>\<open>null\<close>, \<^verbatim>\<open>0\<close>).
\<close>

datatype wsvalue = WData WorkspaceData | WForeign | WFalsy

datatype wsproto = ObjectPrototype | RecordPrototype WorkspaceData

record jsobject =
  ownProps :: "(string \<times> wsvalue) list"
  prototype :: wsproto

fun truthy :: "wsvalue \<Rightarrow> bool" where
  "truthy (WData d) = True"
| "truthy WForeign = True"
| "truthy WFalsy = False"

definition objectPrototypeKeys :: "string list" where
  "objectPrototypeKeys =
     [''constructor'', ''__defineGetter__'', ''__defineSetter__'', ''hasOwnProperty'',
      ''__lookupGetter__'', ''__lookupSetter__'', ''isPrototypeOf'',
      ''propertyIsEnumerable'', ''toString'', ''valueOf'', ''__proto__'',
      ''toLocaleString'']"

text \<open>
  The record literal that \<^verbatim>\<open>saveWorkspace\<close> builds has the own keys \<^verbatim>\<open>layout\<close>,
  \<^verbatim>\<open>lastSaved\<close> and \<^verbatim>\<open>folderExpandState\<close>, and \<^verbatim>\<open>Object.prototype\<close> behind them.
\<close>

definition recordKeys :: "string list" where
  "recordKeys = [''layout'', ''lastSaved'', ''folderExpandState'']"

fun inheritedKeys :: "wsproto \<Rightarrow> string list" where
  "inheritedKeys ObjectPrototype = objectPrototypeKeys"
| "inheritedKeys (RecordPrototype d) = recordKeys @ objectPrototypeKeys"

definition hasOwn :: "jsobject \<Rightarrow> string \<Rightarrow> bool" where
  "hasOwn obj k = (k \<in> set (map fst (ownProps obj)))"

text \<open>\<^verbatim>\<open>k in obj\<close>: an own property or one found along the prototype chain.\<close>

definition hasProperty :: "jsobject \<Rightarrow> string \<Rightarrow> bool" where
  "hasProperty obj k = (hasOwn obj k \<or> k \<in> set (inheritedKeys (prototype obj)))"

fun inheritedValue :: "wsproto \<Rightarrow> string \<Rightarrow> wsvalue" where
  "inheritedValue ObjectPrototype k =
     (if k \<in> set objectPrototypeKeys then WForeign else WFalsy)"
| "inheritedValue (RecordPrototype d) k =
     (if k = ''layout'' then WForeign
      else if k = ''lastSaved'' then (if lastSaved d = 0 then WFalsy else WForeign)
      else if k = ''folderExpandState'' then
        (if truthyFolderState (folderExpandState d) then WForeign else WFalsy)
      else if k = ''__proto__'' then WData d
      else if k \<in> set objectPrototypeKeys then WForeign
      else WFalsy)"

text \<open>\<^verbatim>\<open>obj[k]\<close>; a missing property reads as \<^verbatim>\<open>undefined\<close>.\<close>

definition getProp :: "jsobject \<Rightarrow> string \<Rightarrow> wsvalue" where
  "getProp obj k =
     (case map_of (ownProps obj) k of
        Some v \<Rightarrow> v
      | None \<Rightarrow> inheritedValue (prototype obj) k)"

fun updateOwn :: "string \<Rightarrow> wsvalue \<Rightarrow> (string \<times> wsvalue) list \<Rightarrow> (string \<times> wsvalue) list" where
  "updateOwn k v [] = []"
| "updateOwn k v (p # ps) = (if fst p = k then (k, v) # ps else p # updateOwn k v ps)"

text \<open>
  \<^verbatim>\<open>obj[k] = v\<close>. An own property keeps its place; the name \<^verbatim>\<open>__proto__\<close>, when it
  is not an own property, reaches the setter inherited from \<^verbatim>\<open>Object.prototype\<close>, which
  replaces the prototype by the object assigned and ignores a value that is not an
  object (the manager assigns a record there, from \<^verbatim>\<open>saveWorkspace\<close>, or nothing:
  \<^verbatim>\<open>renameWorkspace\<close> refuses the name as already existing); any other name becomes
  a new own property, the last one in creation order.
\<close>

definition setProp :: "jsobject \<Rightarrow> string \<Rightarrow> wsvalue \<Rightarrow> jsobject" where
  "setProp obj k v =
     (if hasOwn obj k then obj\<lparr>ownProps := updateOwn k v (ownProps obj)\<rparr>
      else if k = ''__proto__'' then
        (case v of WData d \<Rightarrow> obj\<lparr>prototype := RecordPrototype d\<rparr> | _ \<Rightarrow> obj)
      else obj\<lparr>ownProps := ownProps obj @ [(k, v)]\<rparr>)"

text \<open>\<^verbatim>\<open>delete obj[k]\<close> removes an own property and nothing else.\<close>

definition deleteProp :: "jsobject \<Rightarrow> string \<Rightarrow> jsobject" where
  "deleteProp obj k = obj\<lparr>ownProps := filter (\<lambda>p. fst p \<noteq> k) (ownProps obj)\<rparr>"

subsection \<open>Object.keys\<close>

text \<open>
  \<^verbatim>\<open>Object.keys\<close> lists the own keys: first those that are canonical array indices
  (decimal numerals without leading zero, below \<open>2^32 - 1\<close>) in ascending numeric
  order, then the others in creation order.
\<close>

definition isDigit :: "char \<Rightarrow> bool" where
  "isDigit c = (48 \<le> (of_char c :: nat) \<and> (of_char c :: nat) \<le> 57)"

definition digitValue :: "char \<Rightarrow> nat" where
  "digitValue c = of_char c - 48"

definition decimalValue :: "string \<Rightarrow> nat" where
  "decimalValue s = foldl (\<lambda>n c. 10 * n + digitValue c) 0 s"

definition isArrayIndex :: "string \<Rightarrow> bool" where
  "isArrayIndex s =
     (s \<noteq> [] \<and> list_all isDigit s \<and> (s = ''0'' \<or> hd s \<noteq> CHR ''0'')
      \<and> decimalValue s < 4294967295)"

definition objectKeys :: "jsobject \<Rightarrow> string list" where
  "objectKeys obj =
     (let ks = map fst (ownProps obj)
      in sort_key decimalValue (filter isArrayIndex ks)
         @ filter (\<lambda>k. \<not> isArrayIndex k) ks)"

section \<open>The storage and the manager's state\<close>

record WorkspacesStorage =
  workspaces :: jsobject
  activeWorkspace :: "string option"
  version :: string

text \<open>The storage the constructor builds when no saved one is given.\<close>

definition emptyStorage :: WorkspacesStorage where
  "emptyStorage =
     \<lparr>workspaces = \<lparr>ownProps = [], prototype = ObjectPrototype\<rparr>,
      activeWorkspace = None, version = ''2.0.0''\<rparr>"

datatype err = HostError string | TypeError

text \<open>One constructor for each message that the manager hands to its logger.\<close>

datatype logEntry =
    LogSaveWorkspace string | LogSaveFolderState bool | LogErrorNameEmpty
  | LogLayoutCaptured | LogWarnFolderStateNull | LogExplorerEnabled bool
  | LogExplorerLoaded "bool option" | LogExtractedFromTree nat | LogFolderStateCaptured
  | LogFolderStateJson folderState | LogFolderStateNotSaved | LogSaved string
  | LogErrorSaving err
  | LogLoadWorkspace string | LogRestoreFolderState bool | LogErrorNotFound string
  | LogLastSaved "nat option" | LogHasFolderState bool | LogRestoringFolderState
  | LogClearingFolderState | LogFolderStateNotRestored | LogApplyingLayout
  | LogWarnLayoutChange | LogLayoutErrorDetail err | LogForcingRefresh
  | LogExpanded string | LogLoaded string | LogErrorLoading err | LogErrorStack err
  | LogDeleteWorkspace string | LogClearedActive | LogDeleted string
  | LogRenameWorkspace string string | LogErrorExists string | LogErrorNewNameEmpty
  | LogUpdatedActive string | LogRenamed

datatype notice =
    NoticeNameEmpty | NoticeNotFound string | NoticeAlreadyExists string
  | NoticeSaveFailed err | NoticeLoadFailed err
  | NoticeNoActiveWorkspace | NoticeSavedWorkspace string

datatype hostEvent =
    WorkspaceOpen string | WorkspaceDelete string | WorkspaceRename string string

text \<open>
  What the manager does to the host, in the order in which it does it. An awaited
  host call contributes its start and, when it returns, its end: the statement after an
  \<^verbatim>\<open>await\<close> runs only once the call has settled.
\<close>

datatype effect =
    Notice notice
  | LoggerSave
  | ConsoleWarn err
  | ConsoleError err
  | GetLayout
  | ReadFolderStore
  | WriteFolderStoreBegin folderState
  | WriteFolderStoreEnd
  | ChangeLayoutBegin "layoutBlob option"
  | ChangeLayoutEnd
  | SetCollapsed string bool
  | Trigger hostEvent
  | SaveData

text \<open>
  The manager's storage and logger, the host's folder-state store (the value under
  \<^verbatim>\<open>file-explorer-unfold\<close>) and the host calls made so far.
\<close>

record world =
  storage :: WorkspacesStorage
  logs :: "logEntry list"
  folderStore :: folderState
  effects :: "effect list"

definition logMsg :: "logEntry \<Rightarrow> world \<Rightarrow> world" where
  "logMsg m w = w\<lparr>logs := logs w @ [m]\<rparr>"

definition emit :: "effect \<Rightarrow> world \<Rightarrow> world" where
  "emit e w = w\<lparr>effects := effects w @ [e]\<rparr>"

text \<open>The host calls made from one state to a later one.\<close>

definition newEffects :: "world \<Rightarrow> world \<Rightarrow> effect list" where
  "newEffects w w' = drop (length (effects w)) (effects w')"

definition newLogs :: "world \<Rightarrow> world \<Rightarrow> logEntry list" where
  "newLogs w w' = drop (length (logs w)) (logs w')"

section \<open>Reads\<close>

definition hasWorkspace :: "WorkspacesStorage \<Rightarrow> string \<Rightarrow> bool" where
  "hasWorkspace s name = hasProperty (workspaces s) name"

text \<open>\<^verbatim>\<open>this.storage.workspaces[name] || null\<close>\<close>

definition getWorkspace :: "WorkspacesStorage \<Rightarrow> string \<Rightarrow> wsvalue option" where
  "getWorkspace s name =
     (let v = getProp (workspaces s) name in if truthy v then Some v else None)"

definition getActiveWorkspace :: "WorkspacesStorage \<Rightarrow> string option" where
  "getActiveWorkspace s = activeWorkspace s"

text \<open>
  \<^verbatim>\<open>name.trim()\<close> strips white space and line terminators at both ends; among the
  code units below 256 these are tab, line feed, vertical tab, form feed, carriage
  return, space and no-break space.
\<close>

definition isWhiteSpace :: "char \<Rightarrow> bool" where
  "isWhiteSpace c = (c \<in> set [CHR 0x09, CHR 0x0A, CHR 0x0B, CHR 0x0C, CHR 0x0D, CHR 0x20, CHR 0xA0])"

definition trim :: "string \<Rightarrow> string" where
  "trim s = rev (dropWhile isWhiteSpace (rev (dropWhile isWhiteSpace s)))"

text \<open>\<^verbatim>\<open>!name || name.trim() === ''\<close>\<close>

definition isBlank :: "string \<Rightarrow> bool" where
  "isBlank name = (name = [] \<or> trim name = [])"

section \<open>Delete, rename, set active\<close>

definition deleteWorkspace :: "string \<Rightarrow> world \<Rightarrow> world" where
  "deleteWorkspace name w0 =
     (let w1 = logMsg (LogDeleteWorkspace name) w0 in
      if \<not> hasWorkspace (storage w1) name then
        emit (Notice (NoticeNotFound name)) (logMsg (LogErrorNotFound name) w1)
      else
        let s1 = (storage w1)\<lparr>workspaces := deleteProp (workspaces (storage w1)) name\<rparr>;
            w2 = w1\<lparr>storage := s1\<rparr>;
            w3 = (if activeWorkspace s1 = Some name
                  then logMsg LogClearedActive (w2\<lparr>storage := s1\<lparr>activeWorkspace := None\<rparr>\<rparr>)
                  else w2);
            w4 = emit (Trigger (WorkspaceDelete name)) w3
        in emit LoggerSave (logMsg (LogDeleted name) w4))"

definition renameWorkspace :: "string \<Rightarrow> string \<Rightarrow> world \<Rightarrow> world" where
  "renameWorkspace oldName newName w0 =
     (let w1 = logMsg (LogRenameWorkspace oldName newName) w0 in
      if \<not> hasWorkspace (storage w1) oldName then
        emit (Notice (NoticeNotFound oldName)) (logMsg (LogErrorNotFound oldName) w1)
      else if hasWorkspace (storage w1) newName then
        emit (Notice (NoticeAlreadyExists newName)) (logMsg (LogErrorExists newName) w1)
      else if isBlank newName then
        emit (Notice NoticeNameEmpty) (logMsg LogErrorNewNameEmpty w1)
      else
        let obj0 = workspaces (storage w1);
            obj1 = setProp obj0 newName (getProp obj0 oldName);
            obj2 = deleteProp obj1 oldName;
            s1 = (storage w1)\<lparr>workspaces := obj2\<rparr>;
            w2 = w1\<lparr>storage := s1\<rparr>;
            w3 = (if activeWorkspace s1 = Some oldName
                  then logMsg (LogUpdatedActive newName)
                         (w2\<lparr>storage := s1\<lparr>activeWorkspace := Some newName\<rparr>\<rparr>)
                  else w2);
            w4 = emit (Trigger (WorkspaceRename newName oldName)) w3
        in emit LoggerSave (logMsg LogRenamed w4))"

definition setActiveWorkspace :: "string \<Rightarrow> WorkspacesStorage \<Rightarrow> WorkspacesStorage" where
  "setActiveWorkspace name s =
     (if hasWorkspace s name then s\<lparr>activeWorkspace := Some name\<rparr> else s)"

section \<open>The host during one call of the manager\<close>

text \<open>
  A node of the file explorer's tree, as far as the manager looks at it:
  \<^verbatim>\<open>node.file?.path\<close>, whether \<^verbatim>\<open>node.setCollapsed\<close> is defined, \<^verbatim>\<open>node.collapsed\<close>
  and \<^verbatim>\<open>node.children\<close> (empty when undefined).
\<close>

datatype node =
  Node (nodePath: "string option") (hasSetCollapsed: bool)
       (nodeCollapsed: "bool option") (nodeChildren: "node list")

text \<open>\<^verbatim>\<open>fileExplorer.instance?.tree\<close> and, when there is one, \<^verbatim>\<open>tree.root\<close>.\<close>

datatype explorerView = NoTree | Tree "node option"

record fileExplorerPlugin =
  enabled :: bool
  instanceView :: explorerView

text \<open>
  How the host answers during one call: what \<^verbatim>\<open>getLayout\<close> returns or throws, whether
  \<^verbatim>\<open>loadLocalStorage\<close>, \<^verbatim>\<open>saveLocalStorage\<close> and \<^verbatim>\<open>changeLayout\<close> throw, the file-explorer
  plugin found under \<^verbatim>\<open>internalPlugins?.plugins?.['file-explorer']\<close>, and the clock.
\<close>

record host =
  getLayoutResult :: "err + layoutBlob"
  loadLocalStorageError :: "err option"
  saveLocalStorageError :: "err option"
  changeLayoutError :: "err option"
  fileExplorer :: "fileExplorerPlugin option"
  dateNow :: nat

datatype outcome = Returned | Threw err

text \<open>\<^verbatim>\<open>node.file?.path\<close> as a condition: a non-empty string.\<close>

fun truthyPath :: "string option \<Rightarrow> string option" where
  "truthyPath None = None"
| "truthyPath (Some p) = (if p = [] then None else Some p)"

section \<open>Load\<close>

text \<open>The fields of the value that \<^verbatim>\<open>getWorkspace\<close> returned.\<close>

fun folderStateOf :: "wsvalue \<Rightarrow> folderState" where
  "folderStateOf (WData d) = folderExpandState d"
| "folderStateOf v = FUndefined"

fun layoutOf :: "wsvalue \<Rightarrow> layoutBlob option" where
  "layoutOf (WData d) = Some (layout d)"
| "layoutOf v = None"

fun lastSavedOf :: "wsvalue \<Rightarrow> nat option" where
  "lastSavedOf (WData d) = Some (lastSaved d)"
| "lastSavedOf v = None"

text \<open>\<^verbatim>\<open>await this.app.saveLocalStorage('file-explorer-unfold', v)\<close>\<close>

definition saveLocalStorage :: "host \<Rightarrow> folderState \<Rightarrow> world \<Rightarrow> err option \<times> world" where
  "saveLocalStorage h v w =
     (let w1 = emit (WriteFolderStoreBegin v) w in
      case saveLocalStorageError h of
        Some e \<Rightarrow> (Some e, w1)
      | None \<Rightarrow> (None, emit WriteFolderStoreEnd (w1\<lparr>folderStore := v\<rparr>)))"

definition restoreFolderStateStep ::
    "host \<Rightarrow> bool \<Rightarrow> folderState \<Rightarrow> world \<Rightarrow> err option \<times> world" where
  "restoreFolderStateStep h restoreFolderState fs w =
     (if restoreFolderState then
        (if truthyFolderState fs then
           saveLocalStorage h fs
             (logMsg (LogFolderStateJson fs) (logMsg LogRestoringFolderState w))
         else saveLocalStorage h FNull (logMsg LogClearingFolderState w))
      else (None, logMsg LogFolderStateNotRestored w))"

text \<open>The inner \<^verbatim>\<open>try\<close> around \<^verbatim>\<open>await this.app.workspace.changeLayout(workspace.layout)\<close>.\<close>

definition changeLayoutStep :: "host \<Rightarrow> layoutBlob option \<Rightarrow> world \<Rightarrow> world" where
  "changeLayoutStep h lay w =
     (let w1 = emit (ChangeLayoutBegin lay) (logMsg LogApplyingLayout w) in
      case changeLayoutError h of
        None \<Rightarrow> emit ChangeLayoutEnd w1
      | Some e \<Rightarrow>
          emit (ConsoleWarn e) (logMsg (LogLayoutErrorDetail e) (logMsg LogWarnLayoutChange w1)))"

fun collapseAll :: "node \<Rightarrow> effect list" where
  "collapseAll (Node p sc c ch) =
     (case truthyPath p of
        Some q \<Rightarrow> (if sc then [SetCollapsed q True] else [])
      | None \<Rightarrow> [])
     @ concat (map collapseAll ch)"

text \<open>\<^verbatim>\<open>workspace.folderExpandState?.includes(path)\<close>\<close>

fun includesPath :: "folderState \<Rightarrow> string \<Rightarrow> bool" where
  "includesPath (FPaths ps) p = (p \<in> set ps)"
| "includesPath fs p = False"

text \<open>
  \<^verbatim>\<open>expandSaved\<close> calls \<^verbatim>\<open>node.setCollapsed(false)\<close> on every node whose path is in the
  snapshot, without asking whether the node has that method; calling a missing method
  throws and ends the walk. The result is the paths expanded, in order, and the error.
\<close>

fun expandSaved :: "folderState \<Rightarrow> node \<Rightarrow> string list \<times> err option"
  and expandSavedChildren :: "folderState \<Rightarrow> node list \<Rightarrow> string list \<times> err option" where
  "expandSaved fs (Node p sc c ch) =
     (case truthyPath p of
        None \<Rightarrow> expandSavedChildren fs ch
      | Some q \<Rightarrow>
          if includesPath fs q then
            (if sc then (case expandSavedChildren fs ch of (xs, e) \<Rightarrow> (q # xs, e))
             else ([], Some TypeError))
          else expandSavedChildren fs ch)"
| "expandSavedChildren fs [] = ([], None)"
| "expandSavedChildren fs (n # ns) =
     (case expandSaved fs n of
        (xs, Some e) \<Rightarrow> (xs, Some e)
      | (xs, None) \<Rightarrow> (case expandSavedChildren fs ns of (ys, e) \<Rightarrow> (xs @ ys, e)))"

definition expandedOne :: "string \<Rightarrow> world \<Rightarrow> world" where
  "expandedOne p w = logMsg (LogExpanded p) (emit (SetCollapsed p False) w)"

text \<open>The forced refresh of the file explorer after the layout change.\<close>

definition refreshExplorerStep ::
    "host \<Rightarrow> bool \<Rightarrow> folderState \<Rightarrow> world \<Rightarrow> err option \<times> world" where
  "refreshExplorerStep h restoreFolderState fs w =
     (case fileExplorer h of
        None \<Rightarrow> (None, w)
      | Some fe \<Rightarrow>
          if enabled fe \<and> restoreFolderState then
            (let w1 = logMsg LogForcingRefresh w in
             case instanceView fe of
               NoTree \<Rightarrow> (None, w1)
             | Tree None \<Rightarrow> (None, w1)
             | Tree (Some r) \<Rightarrow>
                 (let w2 = w1\<lparr>effects := effects w1 @ collapseAll r\<rparr> in
                  if truthyFolderState fs then
                    (case expandSaved fs r of (xs, e) \<Rightarrow> (e, fold expandedOne xs w2))
                  else (None, w2)))
          else (None, w))"

definition finishLoad :: "string \<Rightarrow> world \<Rightarrow> world" where
  "finishLoad name w =
     emit LoggerSave
       (logMsg (LogLoaded name)
          (emit (Trigger (WorkspaceOpen name))
             (w\<lparr>storage := (storage w)\<lparr>activeWorkspace := Some name\<rparr>\<rparr>)))"

text \<open>The outer \<^verbatim>\<open>catch\<close>: log, save the log, report, and throw the error again.\<close>

definition failLoad :: "err \<Rightarrow> world \<Rightarrow> world" where
  "failLoad e w =
     emit (Notice (NoticeLoadFailed e))
       (emit (ConsoleError e)
          (emit LoggerSave (logMsg (LogErrorStack e) (logMsg (LogErrorLoading e) w))))"

definition loadWorkspace :: "host \<Rightarrow> string \<Rightarrow> bool \<Rightarrow> world \<Rightarrow> outcome \<times> world" where
  "loadWorkspace h name restoreFolderState w0 =
     (let w1 = logMsg (LogRestoreFolderState restoreFolderState)
                 (logMsg (LogLoadWorkspace name) w0) in
      case getWorkspace (storage w1) name of
        None \<Rightarrow>
          (Returned,
           emit (Notice (NoticeNotFound name))
             (emit LoggerSave (logMsg (LogErrorNotFound name) w1)))
      | Some workspace \<Rightarrow>
          (let fs = folderStateOf workspace;
               w2 = logMsg (LogHasFolderState (truthyFolderState fs))
                      (logMsg (LogLastSaved (lastSavedOf workspace)) w1) in
           case restoreFolderStateStep h restoreFolderState fs w2 of
             (Some e, w3) \<Rightarrow> (Threw e, failLoad e w3)
           | (None, w3) \<Rightarrow>
               (let w4 = changeLayoutStep h (layoutOf workspace) w3 in
                case refreshExplorerStep h restoreFolderState fs w4 of
                  (Some e, w5) \<Rightarrow> (Threw e, failLoad e w5)
                | (None, w5) \<Rightarrow> (Returned, finishLoad name w5))))"

section \<open>Save\<close>

fun checkNode :: "node \<Rightarrow> string list" where
  "checkNode (Node p sc c ch) =
     (case truthyPath p of
        Some q \<Rightarrow> (if c = Some False then [q] else [])
      | None \<Rightarrow> [])
     @ concat (map checkNode ch)"

text \<open>
  When local storage holds \<^verbatim>\<open>null\<close>, the folder state is read off the file explorer's
  tree, if that yields at least one expanded folder.
\<close>

definition folderStateFromTree :: "host \<Rightarrow> world \<Rightarrow> folderState \<times> world" where
  "folderStateFromTree h w =
     (let fe = fileExplorer h;
          w1 = logMsg (LogExplorerLoaded (map_option enabled fe))
                 (logMsg (LogExplorerEnabled (fe \<noteq> None)) (logMsg LogWarnFolderStateNull w))
      in case fe of
           None \<Rightarrow> (FNull, w1)
         | Some p \<Rightarrow>
             if enabled p then
               (case instanceView p of
                  NoTree \<Rightarrow> (FNull, w1)
                | Tree r \<Rightarrow>
                    (let expanded = (case r of None \<Rightarrow> [] | Some n \<Rightarrow> checkNode n) in
                     if length expanded > 0
                     then (FPaths expanded, logMsg (LogExtractedFromTree (length expanded)) w1)
                     else (FNull, w1)))
             else (FNull, w1))"

definition captureFolderState :: "host \<Rightarrow> bool \<Rightarrow> world \<Rightarrow> (err + folderState) \<times> world" where
  "captureFolderState h saveFolderState w =
     (if saveFolderState then
        (let w1 = emit ReadFolderStore w in
         case loadLocalStorageError h of
           Some e \<Rightarrow> (Inl e, w1)
         | None \<Rightarrow>
             (let r = (if folderStore w1 = FNull then folderStateFromTree h w1
                       else (folderStore w1, w1))
              in (Inr (fst r),
                  logMsg (LogFolderStateJson (fst r)) (logMsg LogFolderStateCaptured (snd r)))))
      else (Inr FUndefined, logMsg LogFolderStateNotSaved w))"

definition failSave :: "err \<Rightarrow> world \<Rightarrow> world" where
  "failSave e w =
     emit (Notice (NoticeSaveFailed e))
       (emit (ConsoleError e)
          (emit LoggerSave (logMsg (LogErrorStack e) (logMsg (LogErrorSaving e) w))))"

definition saveWorkspace :: "host \<Rightarrow> string \<Rightarrow> bool \<Rightarrow> world \<Rightarrow> outcome \<times> world" where
  "saveWorkspace h name saveFolderState w0 =
     (let w1 = logMsg (LogSaveFolderState saveFolderState) (logMsg (LogSaveWorkspace name) w0) in
      if isBlank name then
        (Returned, emit (Notice NoticeNameEmpty) (logMsg LogErrorNameEmpty w1))
      else
        (let w2 = emit GetLayout w1 in
         case getLayoutResult h of
           Inl e \<Rightarrow> (Threw e, failSave e w2)
         | Inr lay \<Rightarrow>
             (case captureFolderState h saveFolderState (logMsg LogLayoutCaptured w2) of
                (Inl e, w4) \<Rightarrow> (Threw e, failSave e w4)
              | (Inr fs, w4) \<Rightarrow>
                  (let d = \<lparr>layout = lay, lastSaved = dateNow h,
                            folderExpandState = fs, metadata = None\<rparr>;
                       s1 = (storage w4)\<lparr>workspaces :=
                              setProp (workspaces (storage w4)) name (WData d)\<rparr>;
                       s2 = s1\<lparr>activeWorkspace := Some name\<rparr>
                   in (Returned,
                       emit LoggerSave (logMsg (LogSaved name) (w4\<lparr>storage := s2\<rparr>)))))))"

section \<open>Listing the names\<close>

text \<open>
  Modelled from the spec: \<^verbatim>\<open>a.localeCompare(b, undefined, {numeric: true, sensitivity:
  'base'})\<close> is the host's collation, not code of this repository. The spec (4.1)
  gives its contract: runs of decimal digits compare by numeric value, everything else
  compares case-insensitively by code point. \<open>naturalKey\<close> is the sort key this
  describes: one entry for each character outside a digit run (its code point, letters
  folded to lower case) and one for each maximal digit run (its numeric value, placed
  where the digits are among the code points); \<open>naturalCompare\<close> compares the keys
  entry by entry, a shorter name before its extensions, and answers like
  \<^verbatim>\<open>localeCompare\<close> with a negative number, zero or a positive number.
\<close>

definition foldedCode :: "char \<Rightarrow> nat" where
  "foldedCode c =
     (let n = of_char c
      in if (65 \<le> n \<and> n \<le> 90) \<or> (192 \<le> n \<and> n \<le> 222 \<and> n \<noteq> 215) then n + 32 else n)"

text \<open>The lower-case form of a character, to state that letter case is ignored.\<close>

definition toLowerCase :: "char \<Rightarrow> char" where
  "toLowerCase c = char_of (foldedCode c)"

fun runKey :: "nat option \<Rightarrow> (nat \<times> nat) list" where
  "runKey None = []"
| "runKey (Some n) = [(48, n)]"

fun runValue :: "nat option \<Rightarrow> nat" where
  "runValue None = 0"
| "runValue (Some n) = n"

fun naturalKeyFrom :: "nat option \<Rightarrow> string \<Rightarrow> (nat \<times> nat) list" where
  "naturalKeyFrom run [] = runKey run"
| "naturalKeyFrom run (c # cs) =
     (if isDigit c then naturalKeyFrom (Some (10 * runValue run + digitValue c)) cs
      else runKey run @ (foldedCode c, 0) # naturalKeyFrom None cs)"

definition naturalKey :: "string \<Rightarrow> (nat \<times> nat) list" where
  "naturalKey s = naturalKeyFrom None s"

definition compareNat :: "nat \<Rightarrow> nat \<Rightarrow> int" where
  "compareNat m n = (if m < n then - 1 else if n < m then 1 else 0)"

definition compareEntry :: "nat \<times> nat \<Rightarrow> nat \<times> nat \<Rightarrow> int" where
  "compareEntry x y =
     (if compareNat (fst x) (fst y) = 0 then compareNat (snd x) (snd y)
      else compareNat (fst x) (fst y))"

fun compareKeys :: "(nat \<times> nat) list \<Rightarrow> (nat \<times> nat) list \<Rightarrow> int" where
  "compareKeys [] [] = 0"
| "compareKeys [] (y # ys) = - 1"
| "compareKeys (x # xs) [] = 1"
| "compareKeys (x # xs) (y # ys) =
     (if compareEntry x y = 0 then compareKeys xs ys else compareEntry x y)"

definition naturalCompare :: "string \<Rightarrow> string \<Rightarrow> int" where
  "naturalCompare a b = compareKeys (naturalKey a) (naturalKey b)"

text \<open>
  \<^verbatim>\<open>Array.prototype.sort\<close> with a comparator: the sort is stable, so elements that
  compare equal keep their order.
\<close>

fun insertSorted :: "('a \<Rightarrow> 'a \<Rightarrow> int) \<Rightarrow> 'a \<Rightarrow> 'a list \<Rightarrow> 'a list" where
  "insertSorted c x [] = [x]"
| "insertSorted c x (y # ys) = (if c x y \<le> 0 then x # y # ys else y # insertSorted c x ys)"

definition jsSort :: "('a \<Rightarrow> 'a \<Rightarrow> int) \<Rightarrow> 'a list \<Rightarrow> 'a list" where
  "jsSort c xs = foldr (insertSorted c) xs []"

definition getWorkspaceNames :: "WorkspacesStorage \<Rightarrow> string list" where
  "getWorkspaceNames s = jsSort naturalCompare (objectKeys (workspaces s))"

section \<open>The plugin: settings, sidebars, navigation layouts\<close>

record WorkspaceNavigatorSettings =
  rememberNavigationLayout :: bool
  maintainLayoutAcrossWorkspaces :: bool
  showStatusBar :: bool
  showInstructions :: bool
  showDeleteConfirmation :: bool
  autoSaveOnSwitch :: bool
  sortWorkspacesAlphabetically :: bool
  debugMode :: bool

definition DEFAULT_SETTINGS :: WorkspaceNavigatorSettings where
  "DEFAULT_SETTINGS =
     \<lparr>rememberNavigationLayout = True, maintainLayoutAcrossWorkspaces = False,
      showStatusBar = True, showInstructions = True, showDeleteConfirmation = True,
      autoSaveOnSwitch = False, sortWorkspacesAlphabetically = True, debugMode = False\<rparr>"

record NavigationLayoutState =
  leftSidebarOpen :: bool
  rightSidebarOpen :: bool
  leftSidebarTab :: "string option"
  rightSidebarTab :: "string option"
  leftSidebarWidth :: "nat option"
  rightSidebarWidth :: "nat option"

text \<open>
  A sidebar of the host (\<^verbatim>\<open>app.workspace.leftSplit\<close>, \<^verbatim>\<open>rightSplit\<close>): its
  \<^verbatim>\<open>collapsed\<close> flag (possibly undefined), the view type of its active leaf and the
  width of its container. The host's \<^verbatim>\<open>expand()\<close> leaves the sidebar not collapsed and
  \<^verbatim>\<open>collapse()\<close> leaves it collapsed.
\<close>

record split =
  collapsed :: "bool option"
  activeViewType :: "string option"
  offsetWidth :: "nat option"

record sidebars =
  leftSplit :: "split option"
  rightSplit :: "split option"

datatype side = LeftSide | RightSide

datatype splitCall = Expand side | Collapse side

definition expand :: "split \<Rightarrow> split" where
  "expand sp = sp\<lparr>collapsed := Some False\<rparr>"

definition collapse :: "split \<Rightarrow> split" where
  "collapse sp = sp\<lparr>collapsed := Some True\<rparr>"

text \<open>\<^verbatim>\<open>split.collapsed\<close> as a condition.\<close>

definition isCollapsed :: "split \<Rightarrow> bool" where
  "isCollapsed sp = (collapsed sp = Some True)"

text \<open>\<^verbatim>\<open>type || null\<close>: an undefined or empty view type is stored as \<^verbatim>\<open>null\<close>.\<close>

fun orNull :: "string option \<Rightarrow> string option" where
  "orNull None = None"
| "orNull (Some t) = (if t = [] then None else Some t)"

text \<open>
  \<^verbatim>\<open>leftSidebarOpen: leftSplit && leftSplit.collapsed === false\<close> is \<^verbatim>\<open>undefined\<close> when the
  host has no such sidebar; the plugin reads the field only as a condition, and the
  record keeps that reading: \<open>False\<close>.
\<close>

definition getCurrentNavigationLayout :: "sidebars \<Rightarrow> NavigationLayoutState" where
  "getCurrentNavigationLayout sb =
     \<lparr>leftSidebarOpen = (case leftSplit sb of None \<Rightarrow> False | Some sp \<Rightarrow> collapsed sp = Some False),
      rightSidebarOpen = (case rightSplit sb of None \<Rightarrow> False | Some sp \<Rightarrow> collapsed sp = Some False),
      leftSidebarTab = (case leftSplit sb of None \<Rightarrow> None | Some sp \<Rightarrow> orNull (activeViewType sp)),
      rightSidebarTab = (case rightSplit sb of None \<Rightarrow> None | Some sp \<Rightarrow> orNull (activeViewType sp)),
      leftSidebarWidth = (case leftSplit sb of None \<Rightarrow> None | Some sp \<Rightarrow> offsetWidth sp),
      rightSidebarWidth = (case rightSplit sb of None \<Rightarrow> None | Some sp \<Rightarrow> offsetWidth sp)\<rparr>"

text \<open>
  One sidebar of \<^verbatim>\<open>restoreNavigationLayout\<close>: the sidebar afterwards and the host calls
  made on it. The latest revision skips a sidebar whose \<^verbatim>\<open>collapsed\<close> is undefined.
\<close>

definition restoreSplit :: "side \<Rightarrow> bool \<Rightarrow> split option \<Rightarrow> split option \<times> splitCall list" where
  "restoreSplit sd isOpen spo =
     (case spo of
        None \<Rightarrow> (None, [])
      | Some sp \<Rightarrow>
          if collapsed sp \<noteq> None then
            (if isOpen \<and> isCollapsed sp then (Some (expand sp), [Expand sd])
             else if \<not> isOpen \<and> \<not> isCollapsed sp then (Some (collapse sp), [Collapse sd])
             else (Some sp, []))
          else (Some sp, []))"

text \<open>The same in the earlier revision (\<^verbatim>\<open>src/main.ts\<close>), which tests only \<^verbatim>\<open>if (leftSplit)\<close>.\<close>

definition restoreSplitEarlier :: "side \<Rightarrow> bool \<Rightarrow> split option \<Rightarrow> split option \<times> splitCall list" where
  "restoreSplitEarlier sd isOpen spo =
     (case spo of
        None \<Rightarrow> (None, [])
      | Some sp \<Rightarrow>
          if isOpen \<and> isCollapsed sp then (Some (expand sp), [Expand sd])
          else if \<not> isOpen \<and> \<not> isCollapsed sp then (Some (collapse sp), [Collapse sd])
          else (Some sp, []))"

definition restoreWith ::
    "(side \<Rightarrow> bool \<Rightarrow> split option \<Rightarrow> split option \<times> splitCall list) \<Rightarrow>
     WorkspaceNavigatorSettings \<Rightarrow> (string \<rightharpoonup> NavigationLayoutState) \<Rightarrow> string \<Rightarrow>
     sidebars \<Rightarrow> sidebars \<times> splitCall list" where
  "restoreWith one st navigationLayouts workspaceName sb =
     (if \<not> rememberNavigationLayout st \<or> maintainLayoutAcrossWorkspaces st then (sb, [])
      else case navigationLayouts workspaceName of
        None \<Rightarrow> (sb, [])
      | Some lay \<Rightarrow>
          (let l = one LeftSide (leftSidebarOpen lay) (leftSplit sb);
               r = one RightSide (rightSidebarOpen lay) (rightSplit sb)
           in (\<lparr>leftSplit = fst l, rightSplit = fst r\<rparr>, snd l @ snd r)))"

definition restoreNavigationLayout ::
    "WorkspaceNavigatorSettings \<Rightarrow> (string \<rightharpoonup> NavigationLayoutState) \<Rightarrow> string \<Rightarrow>
     sidebars \<Rightarrow> sidebars \<times> splitCall list" where
  "restoreNavigationLayout = restoreWith restoreSplit"

definition restoreNavigationLayoutEarlier ::
    "WorkspaceNavigatorSettings \<Rightarrow> (string \<rightharpoonup> NavigationLayoutState) \<Rightarrow> string \<Rightarrow>
     sidebars \<Rightarrow> sidebars \<times> splitCall list" where
  "restoreNavigationLayoutEarlier = restoreWith restoreSplitEarlier"

record plugin =
  settings :: WorkspaceNavigatorSettings
  navigationLayouts :: "string \<rightharpoonup> NavigationLayoutState"
  sidebarState :: sidebars
  manager :: world

definition saveNavigationLayout :: "string \<Rightarrow> plugin \<Rightarrow> plugin" where
  "saveNavigationLayout workspaceName p =
     (if \<not> rememberNavigationLayout (settings p) then p
      else p\<lparr>navigationLayouts :=
                (navigationLayouts p)(workspaceName \<mapsto> getCurrentNavigationLayout (sidebarState p)),
              manager := emit SaveData (manager p)\<rparr>)"

text \<open>The command \<^verbatim>\<open>save-current-workspace\<close>.\<close>

definition saveCurrentWorkspace :: "host \<Rightarrow> plugin \<Rightarrow> outcome \<times> plugin" where
  "saveCurrentWorkspace h p =
     (case getActiveWorkspace (storage (manager p)) of
        None \<Rightarrow> (Returned, p\<lparr>manager := emit (Notice NoticeNoActiveWorkspace) (manager p)\<rparr>)
      | Some workspaceName \<Rightarrow>
          if workspaceName = [] then
            (Returned, p\<lparr>manager := emit (Notice NoticeNoActiveWorkspace) (manager p)\<rparr>)
          else
            (let p1 = saveNavigationLayout workspaceName p;
                 r = saveWorkspace h workspaceName (rememberNavigationLayout (settings p1)) (manager p1)
             in case fst r of
                  Threw e \<Rightarrow> (Threw e, p1\<lparr>manager := snd r\<rparr>)
                | Returned \<Rightarrow>
                    (Returned,
                     p1\<lparr>manager := emit (Notice (NoticeSavedWorkspace workspaceName)) (snd r)\<rparr>)))"

text \<open>
  The switcher's list, under the heading ``Get list of workspaces (sorted if enabled)''
  in every revision of the modal. In the revision that works on the manager,
  \<^verbatim>\<open>getItems\<close> returns \<^verbatim>\<open>getWorkspaceNames()\<close> and does not read the settings; the
  earlier revisions listed the core plugin's workspaces object and sorted it only when
  \<^verbatim>\<open>sortWorkspacesAlphabetically\<close> was set.
\<close>

definition getItems :: "plugin \<Rightarrow> string list" where
  "getItems p = getWorkspaceNames (storage (manager p))"

definition getItemsEarlier :: "WorkspaceNavigatorSettings \<Rightarrow> jsobject option \<Rightarrow> string list" where
  "getItemsEarlier st workspacePlugin =
     (case workspacePlugin of
        None \<Rightarrow> []
      | Some coreWorkspaces \<Rightarrow>
          if sortWorkspacesAlphabetically st
          then jsSort naturalCompare (objectKeys coreWorkspaces)
          else objectKeys coreWorkspaces)"

section \<open>The active pointer\<close>

text \<open>
  The active pointer is \<^verbatim>\<open>null\<close> or the key of a record of the store: an own property
  of the workspaces object.
\<close>

definition activeIsRecord :: "WorkspacesStorage \<Rightarrow> bool" where
  "activeIsRecord s =
     (case activeWorkspace s of None \<Rightarrow> True | Some a \<Rightarrow> hasOwn (workspaces s) a)"

section \<open>A concrete store and host\<close>

text \<open>
  A store with two workspaces, one saved with a folder snapshot and one without, a host
  that answers every call, and one whose layout engine throws.
\<close>

definition researchRecord :: WorkspaceData where
  "researchRecord =
     \<lparr>layout = LayoutBlob ''research-layout'', lastSaved = 1700000000000,
      folderExpandState = FPaths [''notes'', ''notes/2024''], metadata = None\<rparr>"

definition writingRecord :: WorkspaceData where
  "writingRecord =
     \<lparr>layout = LayoutBlob ''writing-layout'', lastSaved = 1700000000500,
      folderExpandState = FUndefined, metadata = None\<rparr>"

definition exampleStorage :: WorkspacesStorage where
  "exampleStorage =
     \<lparr>workspaces =
        \<lparr>ownProps = [(''Research'', WData researchRecord), (''Writing'', WData writingRecord)],
         prototype = ObjectPrototype\<rparr>,
      activeWorkspace = Some ''Research'', version = ''2.0.0''\<rparr>"

definition exampleWorld :: world where
  "exampleWorld =
     \<lparr>storage = exampleStorage, logs = [], folderStore = FPaths [''archive''], effects = []\<rparr>"

definition emptyWorld :: world where
  "emptyWorld = \<lparr>storage = emptyStorage, logs = [], folderStore = FNull, effects = []\<rparr>"

definition quietHost :: host where
  "quietHost =
     \<lparr>getLayoutResult = Inr (LayoutBlob ''current-layout''), loadLocalStorageError = None,
      saveLocalStorageError = None, changeLayoutError = None, fileExplorer = None,
      dateNow = 1700000001000\<rparr>"

definition throwingLayoutHost :: host where
  "throwingLayoutHost = quietHost\<lparr>changeLayoutError := Some (HostError ''Templater'')\<rparr>"

text \<open>
  The same store with ``Writing'' active, and a host whose layout engine throws and whose
  file explorer shows the folder ``notes'' as a node that has a path but no
  \<^verbatim>\<open>setCollapsed\<close> method, the kind of node that \<^verbatim>\<open>collapseAll\<close> is guarded against.
\<close>

definition writingActiveWorld :: world where
  "writingActiveWorld =
     exampleWorld\<lparr>storage := exampleStorage\<lparr>activeWorkspace := Some ''Writing''\<rparr>\<rparr>"

definition bareNodeTree :: node where
  "bareNodeTree =
     Node (Some ''/'') True (Some False) [Node (Some ''notes'') False None []]"

definition bareNodeHost :: host where
  "bareNodeHost =
     throwingLayoutHost
       \<lparr>fileExplorer := Some \<lparr>enabled = True, instanceView = Tree (Some bareNodeTree)\<rparr>\<rparr>"

text \<open>The store after saving ``Notes 2'', ``Notes 10'' and ``Notes 1'', in that order.\<close>

definition notesWorld :: world where
  "notesWorld =
     snd (saveWorkspace quietHost ''Notes 1'' False
       (snd (saveWorkspace quietHost ''Notes 10'' False
         (snd (saveWorkspace quietHost ''Notes 2'' False emptyWorld)))))"

text \<open>
  A plugin on the example store with navigation memory switched off, and one on the
  notes store with alphabetical sorting switched off. The sidebars: both collapsed; the
  snapshot kept for ``Research'': left open, right closed.
\<close>

definition exampleSidebars :: sidebars where
  "exampleSidebars =
     \<lparr>leftSplit = Some \<lparr>collapsed = Some True, activeViewType = Some ''file-explorer'',
                          offsetWidth = Some 0\<rparr>,
      rightSplit = Some \<lparr>collapsed = Some True, activeViewType = Some ''outline'',
                           offsetWidth = Some 0\<rparr>\<rparr>"

definition exampleLayouts :: "string \<rightharpoonup> NavigationLayoutState" where
  "exampleLayouts =
     [''Research'' \<mapsto>
        \<lparr>leftSidebarOpen = True, rightSidebarOpen = False,
         leftSidebarTab = Some ''file-explorer'', rightSidebarTab = Some ''outline'',
         leftSidebarWidth = Some 300, rightSidebarWidth = Some 0\<rparr>]"

definition forgetfulPlugin :: plugin where
  "forgetfulPlugin =
     \<lparr>settings = DEFAULT_SETTINGS\<lparr>rememberNavigationLayout := False\<rparr>,
      navigationLayouts = exampleLayouts, sidebarState = exampleSidebars,
      manager = exampleWorld\<rparr>"

definition unsortedPlugin :: plugin where
  "unsortedPlugin =
     \<lparr>settings = DEFAULT_SETTINGS\<lparr>sortWorkspacesAlphabetically := False\<rparr>,
      navigationLayouts = Map.empty, sidebarState = exampleSidebars,
      manager = notesWorld\<rparr>"

section \<open>The workspaces object: facts\<close>

lemma map_of_updateOwn:
  "map_of (updateOwn k v ps) k' =
     (if k' = k \<and> map_of ps k \<noteq> None then Some v else map_of ps k')"
  by (induction ps) auto

lemma map_of_filter_key:
  "map_of (filter (\<lambda>p. fst p \<noteq> k) ps) k' = (if k' = k then None else map_of ps k')"
  by (induction ps) auto

lemma hasOwn_map_of: "hasOwn obj k = (map_of (ownProps obj) k \<noteq> None)"
  by (simp add: hasOwn_def map_of_eq_None_iff)

lemma proto_inherited: "''__proto__'' \<in> set (inheritedKeys pr)"
  by (cases pr) (simp_all add: objectPrototypeKeys_def)

lemma inheritedValue_ordinary: "k \<notin> set (inheritedKeys pr) \<Longrightarrow> inheritedValue pr k = WFalsy"
proof (cases pr)
  case ObjectPrototype
  assume "k \<notin> set (inheritedKeys pr)"
  with ObjectPrototype show ?thesis by simp
next
  case (RecordPrototype d)
  assume "k \<notin> set (inheritedKeys pr)"
  with RecordPrototype have "k \<notin> set recordKeys" "k \<notin> set objectPrototypeKeys" by simp_all
  moreover from this(1) have "k \<noteq> ''layout''" "k \<noteq> ''lastSaved''" "k \<noteq> ''folderExpandState''"
    by (simp_all add: recordKeys_def)
  moreover from \<open>k \<notin> set objectPrototypeKeys\<close> have "k \<noteq> ''__proto__''"
    by (auto simp: objectPrototypeKeys_def)
  ultimately show ?thesis using RecordPrototype by simp
qed


text \<open>Reading back what was assigned, and what an assignment or a deletion leaves alone.\<close>

lemma getProp_setProp_record: "getProp (setProp obj k (WData d)) k = WData d"
proof (cases "map_of (ownProps obj) k")
  case None
  then show ?thesis
    by (cases "k = ''__proto__''")
       (simp_all add: getProp_def setProp_def hasOwn_map_of map_add_def)
next
  case (Some v)
  then show ?thesis
    by (simp add: getProp_def setProp_def hasOwn_map_of map_of_updateOwn)
qed

lemma getProp_setProp_new:
  "\<not> hasOwn obj k \<Longrightarrow> k \<noteq> ''__proto__'' \<Longrightarrow> getProp (setProp obj k v) k = v"
  by (simp add: getProp_def setProp_def hasOwn_map_of map_add_def)

lemma getProp_setProp_other:
  assumes "k' \<noteq> k" "k \<noteq> ''__proto__'' \<or> hasOwn obj k"
  shows "getProp (setProp obj k v) k' = getProp obj k'"
proof (cases "map_of (ownProps obj) k")
  case None
  with assms show ?thesis
    by (simp add: getProp_def setProp_def hasOwn_map_of map_add_def split: option.splits)
next
  case (Some x)
  with assms show ?thesis
    by (simp add: getProp_def setProp_def hasOwn_map_of map_of_updateOwn split: option.splits)
qed

lemma hasOwn_setProp:
  assumes "k \<noteq> ''__proto__'' \<or> hasOwn obj k"
  shows "hasOwn (setProp obj k v) k' = (k' = k \<or> hasOwn obj k')"
proof (cases "map_of (ownProps obj) k")
  case None
  with assms show ?thesis
    by (simp add: setProp_def hasOwn_map_of map_add_def split: option.splits)
next
  case (Some x)
  with assms show ?thesis
    by (auto simp: setProp_def hasOwn_map_of map_of_updateOwn)
qed

lemma prototype_setProp:
  "k \<noteq> ''__proto__'' \<or> hasOwn obj k \<Longrightarrow> prototype (setProp obj k v) = prototype obj"
  by (auto simp: setProp_def)

lemma hasOwn_deleteProp: "hasOwn (deleteProp obj k) k' = (k' \<noteq> k \<and> hasOwn obj k')"
  by (simp add: deleteProp_def hasOwn_map_of map_of_filter_key)

lemma prototype_deleteProp: "prototype (deleteProp obj k) = prototype obj"
  by (simp add: deleteProp_def)

lemma getProp_deleteProp:
  "getProp (deleteProp obj k) k' =
     (if k' = k then inheritedValue (prototype obj) k else getProp obj k')"
  by (simp add: getProp_def deleteProp_def map_of_filter_key split: option.splits)

section \<open>The steps of a load\<close>

lemma logMsg_simps [simp]:
  "storage (logMsg m w) = storage w" "effects (logMsg m w) = effects w"
  "folderStore (logMsg m w) = folderStore w" "logs (logMsg m w) = logs w @ [m]"
  by (simp_all add: logMsg_def)

lemma emit_simps [simp]:
  "storage (emit e w) = storage w" "effects (emit e w) = effects w @ [e]"
  "folderStore (emit e w) = folderStore w" "logs (emit e w) = logs w"
  by (simp_all add: emit_def)

lemma newEffects_append [simp]: "effects w' = effects w @ xs \<Longrightarrow> newEffects w w' = xs"
  by (simp add: newEffects_def)

lemma newLogs_append [simp]: "logs w' = logs w @ xs \<Longrightarrow> newLogs w w' = xs"
  by (simp add: newLogs_def)

lemma collapseAll_SetCollapsed: "x \<in> set (collapseAll n) \<Longrightarrow> \<exists>p b. x = SetCollapsed p b"
  by (induction n arbitrary: x) (auto split: option.splits if_splits)

lemma fold_expandedOne:
  "storage (fold expandedOne xs w) = storage w"
  "folderStore (fold expandedOne xs w) = folderStore w"
  "effects (fold expandedOne xs w) = effects w @ map (\<lambda>p. SetCollapsed p False) xs"
  "logs (fold expandedOne xs w) = logs w @ map LogExpanded xs"
  by (induction xs arbitrary: w) (simp_all add: expandedOne_def)

text \<open>What the forced refresh does to the state: it only calls setCollapsed and logs.\<close>

lemma refreshExplorerStep_frame:
  "storage (snd (refreshExplorerStep h r fs w)) = storage w"
  "folderStore (snd (refreshExplorerStep h r fs w)) = folderStore w"
  by (auto simp: refreshExplorerStep_def Let_def fold_expandedOne
      split: option.splits explorerView.splits prod.splits)

lemma refreshExplorerStep_effects:
  "\<exists>xs. effects (snd (refreshExplorerStep h r fs w)) = effects w @ xs
        \<and> (\<forall>x\<in>set xs. \<exists>p b. x = SetCollapsed p b)"
  by (auto simp: refreshExplorerStep_def Let_def fold_expandedOne
      split: option.splits explorerView.splits prod.splits dest: collapseAll_SetCollapsed)

lemma refreshExplorerStep_logs:
  "\<exists>xs. logs (snd (refreshExplorerStep h r fs w)) = logs w @ xs"
  by (auto simp: refreshExplorerStep_def Let_def fold_expandedOne
      split: option.splits explorerView.splits prod.splits)

lemma refreshExplorerStep_error_indep:
  "fst (refreshExplorerStep h r fs w) = fst (refreshExplorerStep h r fs w')"
  by (auto simp: refreshExplorerStep_def Let_def
      split: option.splits explorerView.splits prod.splits)

lemma refreshExplorerStep_no_snapshot:
  "\<not> truthyFolderState fs \<Longrightarrow> fst (refreshExplorerStep h r fs w) = None"
  by (auto simp: refreshExplorerStep_def Let_def
      split: option.splits explorerView.splits prod.splits)


lemma refreshExplorerStep_D:
  assumes "refreshExplorerStep h r fs w = (er, w5)"
  shows "storage w5 = storage w" "folderStore w5 = folderStore w"
    "\<exists>xs. effects w5 = effects w @ xs \<and> (\<forall>x\<in>set xs. \<exists>p b. x = SetCollapsed p b)"
    "\<exists>ys. logs w5 = logs w @ ys"
  using refreshExplorerStep_frame [of h r fs w] refreshExplorerStep_effects [of h r fs w]
    refreshExplorerStep_logs [of h r fs w] assms by simp_all

lemma changeLayoutStep_simps:
  "storage (changeLayoutStep h lay w) = storage w"
  "folderStore (changeLayoutStep h lay w) = folderStore w"
  "effects (changeLayoutStep h lay w) =
     effects w @ ChangeLayoutBegin lay #
       (case changeLayoutError h of None \<Rightarrow> [ChangeLayoutEnd] | Some e \<Rightarrow> [ConsoleWarn e])"
  "logs (changeLayoutStep h lay w) =
     logs w @ LogApplyingLayout #
       (case changeLayoutError h of None \<Rightarrow> [] | Some e \<Rightarrow> [LogWarnLayoutChange, LogLayoutErrorDetail e])"
  by (simp_all add: changeLayoutStep_def Let_def split: option.splits)

lemma finishLoad_simps:
  "storage (finishLoad name w) = (storage w)\<lparr>activeWorkspace := Some name\<rparr>"
  "folderStore (finishLoad name w) = folderStore w"
  "effects (finishLoad name w) = effects w @ [Trigger (WorkspaceOpen name), LoggerSave]"
  "logs (finishLoad name w) = logs w @ [LogLoaded name]"
  by (simp_all add: finishLoad_def)

lemma failLoad_simps:
  "storage (failLoad e w) = storage w"
  "folderStore (failLoad e w) = folderStore w"
  "effects (failLoad e w) = effects w @ [LoggerSave, ConsoleError e, Notice (NoticeLoadFailed e)]"
  "logs (failLoad e w) = logs w @ [LogErrorLoading e, LogErrorStack e]"
  by (simp_all add: failLoad_def)

lemma saveLocalStorage_simps:
  "fst (saveLocalStorage h v w) = saveLocalStorageError h"
  "storage (snd (saveLocalStorage h v w)) = storage w"
  "logs (snd (saveLocalStorage h v w)) = logs w"
  "effects (snd (saveLocalStorage h v w)) =
     effects w @ WriteFolderStoreBegin v #
       (case saveLocalStorageError h of None \<Rightarrow> [WriteFolderStoreEnd] | Some e \<Rightarrow> [])"
  "folderStore (snd (saveLocalStorage h v w)) =
     (case saveLocalStorageError h of None \<Rightarrow> v | Some e \<Rightarrow> folderStore w)"
  by (simp_all add: saveLocalStorage_def Let_def split: option.splits)

section \<open>Load: ordering and error handling\<close>

text \<open>
  Claim C1. In every load with folder restore requested, of a workspace whose record
  holds a folder-expansion snapshot, the write of that snapshot to the folder-state
  store has completed before the layout-apply call begins. When the write returns,
  the host calls of the load start with the write's begin, the write's end and the
  begin of \<^verbatim>\<open>changeLayout\<close> on the record's layout, no further \<^verbatim>\<open>changeLayout\<close> follows,
  and the store holds the snapshot; when the write throws, the load ends in the outer
  \<^verbatim>\<open>catch\<close> and \<^verbatim>\<open>changeLayout\<close> is never called.
\<close>

theorem load_writes_folder_state_before_layout:
  assumes rec: "getWorkspace (storage w) name = Some (WData d)"
    and snap: "truthyFolderState (folderExpandState d)"
  shows "(saveLocalStorageError h = None \<longrightarrow>
            (\<exists>post. newEffects w (snd (loadWorkspace h name True w)) =
                      [WriteFolderStoreBegin (folderExpandState d), WriteFolderStoreEnd,
                       ChangeLayoutBegin (Some (layout d))] @ post
                    \<and> (\<forall>l. ChangeLayoutBegin l \<notin> set post))
            \<and> folderStore (snd (loadWorkspace h name True w)) = folderExpandState d)
       \<and> (\<forall>e. saveLocalStorageError h = Some e \<longrightarrow>
            newEffects w (snd (loadWorkspace h name True w)) =
              [WriteFolderStoreBegin (folderExpandState d), LoggerSave, ConsoleError e,
               Notice (NoticeLoadFailed e)]
            \<and> fst (loadWorkspace h name True w) = Threw e)"
proof (cases "saveLocalStorageError h")
  case None
  let ?w3 = "snd (restoreFolderStateStep h True (folderExpandState d)
       (logMsg (LogHasFolderState True) (logMsg (LogLastSaved (Some (lastSaved d)))
         (logMsg (LogRestoreFolderState True) (logMsg (LogLoadWorkspace name) w)))))"
  let ?w4 = "changeLayoutStep h (Some (layout d)) ?w3"
  obtain er w5 where ref: "refreshExplorerStep h True (folderExpandState d) ?w4 = (er, w5)"
    by (cases "refreshExplorerStep h True (folderExpandState d) ?w4") auto
  from refreshExplorerStep_D [OF ref] obtain xs where
    st: "storage w5 = storage ?w4" and fo: "folderStore w5 = folderStore ?w4"
    and ef: "effects w5 = effects ?w4 @ xs" and xs: "\<forall>x\<in>set xs. \<exists>p b. x = SetCollapsed p b"
    by blast
  have e4: "effects ?w4 = effects w @ [WriteFolderStoreBegin (folderExpandState d), WriteFolderStoreEnd,
       ChangeLayoutBegin (Some (layout d))] @
       (case changeLayoutError h of None \<Rightarrow> [ChangeLayoutEnd] | Some e \<Rightarrow> [ConsoleWarn e])"
    using snap None by (simp add: changeLayoutStep_simps restoreFolderStateStep_def saveLocalStorage_simps)
  have f4: "folderStore ?w4 = folderExpandState d"
    using snap None by (simp add: changeLayoutStep_simps restoreFolderStateStep_def saveLocalStorage_simps)
  have r3: "fst (restoreFolderStateStep h True (folderExpandState d)
       (logMsg (LogHasFolderState True) (logMsg (LogLastSaved (Some (lastSaved d)))
         (logMsg (LogRestoreFolderState True) (logMsg (LogLoadWorkspace name) w))))) = None"
    using snap None by (simp add: restoreFolderStateStep_def saveLocalStorage_simps)
  have load: "loadWorkspace h name True w =
      (case er of Some e \<Rightarrow> (Threw e, failLoad e w5) | None \<Rightarrow> (Returned, finishLoad name w5))"
    using rec snap r3 ref
    by (simp add: loadWorkspace_def Let_def split_beta split: option.splits prod.splits)
  have nocl: "\<forall>l. ChangeLayoutBegin l \<notin> set xs" using xs by auto
  show ?thesis
  proof (cases er)
    case N: None
    have "effects (snd (loadWorkspace h name True w)) = effects w @
        [WriteFolderStoreBegin (folderExpandState d), WriteFolderStoreEnd,
         ChangeLayoutBegin (Some (layout d))] @
        ((case changeLayoutError h of None \<Rightarrow> [ChangeLayoutEnd] | Some e \<Rightarrow> [ConsoleWarn e])
          @ xs @ [Trigger (WorkspaceOpen name), LoggerSave])"
      using load N ef e4 by (simp add: finishLoad_simps)
    moreover have "\<forall>l. ChangeLayoutBegin l \<notin> set ((case changeLayoutError h of None \<Rightarrow> [ChangeLayoutEnd] | Some e \<Rightarrow> [ConsoleWarn e])
          @ xs @ [Trigger (WorkspaceOpen name), LoggerSave])"
      using nocl by (auto split: option.splits)
    moreover have "folderStore (snd (loadWorkspace h name True w)) = folderExpandState d"
      using load N fo f4 by (simp add: finishLoad_simps)
    ultimately show ?thesis using None
      by (metis newEffects_append option.distinct(1))
  next
    case (Some e')
    have "effects (snd (loadWorkspace h name True w)) = effects w @
        [WriteFolderStoreBegin (folderExpandState d), WriteFolderStoreEnd,
         ChangeLayoutBegin (Some (layout d))] @
        ((case changeLayoutError h of None \<Rightarrow> [ChangeLayoutEnd] | Some e \<Rightarrow> [ConsoleWarn e])
          @ xs @ [LoggerSave, ConsoleError e', Notice (NoticeLoadFailed e')])"
      using load Some ef e4 by (simp add: failLoad_simps)
    moreover have "\<forall>l. ChangeLayoutBegin l \<notin> set ((case changeLayoutError h of None \<Rightarrow> [ChangeLayoutEnd] | Some e \<Rightarrow> [ConsoleWarn e])
          @ xs @ [LoggerSave, ConsoleError e', Notice (NoticeLoadFailed e')])"
      using nocl by (auto split: option.splits)
    moreover have "folderStore (snd (loadWorkspace h name True w)) = folderExpandState d"
      using load Some fo f4 by (simp add: failLoad_simps)
    ultimately show ?thesis using None
      by (metis newEffects_append option.distinct(1))
  qed
next
  case (Some e)
  have "loadWorkspace h name True w = (Threw e, failLoad e (snd (restoreFolderStateStep h True (folderExpandState d)
       (logMsg (LogHasFolderState True) (logMsg (LogLastSaved (Some (lastSaved d)))
         (logMsg (LogRestoreFolderState True) (logMsg (LogLoadWorkspace name) w)))))))"
    using rec snap Some
    by (simp add: loadWorkspace_def Let_def restoreFolderStateStep_def saveLocalStorage_def)
  then show ?thesis using Some snap
    by (simp add: failLoad_simps restoreFolderStateStep_def saveLocalStorage_simps)
qed


lemma restoreFolderStateStep_simps:
  "storage (snd (restoreFolderStateStep h r fs w)) = storage w"
  "fst (restoreFolderStateStep h r fs w) = (if r then saveLocalStorageError h else None)"
  "effects (snd (restoreFolderStateStep h r fs w)) =
     effects w @ (if r then WriteFolderStoreBegin (if truthyFolderState fs then fs else FNull) #
        (case saveLocalStorageError h of None \<Rightarrow> [WriteFolderStoreEnd] | Some e \<Rightarrow> []) else [])"
  "folderStore (snd (restoreFolderStateStep h r fs w)) =
     (if r then (case saveLocalStorageError h of
                   None \<Rightarrow> (if truthyFolderState fs then fs else FNull)
                 | Some e \<Rightarrow> folderStore w)
      else folderStore w)"
  "\<exists>ys. logs (snd (restoreFolderStateStep h r fs w)) = logs w @ ys"
  by (simp_all add: restoreFolderStateStep_def saveLocalStorage_simps split: option.splits)

lemma host_update_changeLayoutError:
  "restoreFolderStateStep (h\<lparr>changeLayoutError := x\<rparr>) r fs w = restoreFolderStateStep h r fs w"
  "refreshExplorerStep (h\<lparr>changeLayoutError := x\<rparr>) r fs w = refreshExplorerStep h r fs w"
  by (simp_all add: restoreFolderStateStep_def saveLocalStorage_def refreshExplorerStep_def)

text \<open>Load of a name whose value is a record, step by step.\<close>

lemma loadWorkspace_record:
  assumes rec: "getWorkspace (storage w) name = Some (WData d)"
  shows "loadWorkspace h name r w =
    (case fst (restoreFolderStateStep h r (folderExpandState d)
                (logMsg (LogHasFolderState (truthyFolderState (folderExpandState d)))
                  (logMsg (LogLastSaved (Some (lastSaved d)))
                    (logMsg (LogRestoreFolderState r) (logMsg (LogLoadWorkspace name) w))))) of
       Some e \<Rightarrow>
         (Threw e, failLoad e (snd (restoreFolderStateStep h r (folderExpandState d)
                (logMsg (LogHasFolderState (truthyFolderState (folderExpandState d)))
                  (logMsg (LogLastSaved (Some (lastSaved d)))
                    (logMsg (LogRestoreFolderState r) (logMsg (LogLoadWorkspace name) w)))))))
     | None \<Rightarrow>
         (case fst (refreshExplorerStep h r (folderExpandState d)
                 (changeLayoutStep h (Some (layout d))
                   (snd (restoreFolderStateStep h r (folderExpandState d)
                     (logMsg (LogHasFolderState (truthyFolderState (folderExpandState d)))
                       (logMsg (LogLastSaved (Some (lastSaved d)))
                         (logMsg (LogRestoreFolderState r) (logMsg (LogLoadWorkspace name) w)))))))) of
            Some e \<Rightarrow>
              (Threw e, failLoad e (snd (refreshExplorerStep h r (folderExpandState d)
                 (changeLayoutStep h (Some (layout d))
                   (snd (restoreFolderStateStep h r (folderExpandState d)
                     (logMsg (LogHasFolderState (truthyFolderState (folderExpandState d)))
                       (logMsg (LogLastSaved (Some (lastSaved d)))
                         (logMsg (LogRestoreFolderState r) (logMsg (LogLoadWorkspace name) w))))))))))
          | None \<Rightarrow>
              (Returned, finishLoad name (snd (refreshExplorerStep h r (folderExpandState d)
                 (changeLayoutStep h (Some (layout d))
                   (snd (restoreFolderStateStep h r (folderExpandState d)
                     (logMsg (LogHasFolderState (truthyFolderState (folderExpandState d)))
                       (logMsg (LogLastSaved (Some (lastSaved d)))
                         (logMsg (LogRestoreFolderState r) (logMsg (LogLoadWorkspace name) w))))))))))))"
  using rec
  by (simp add: loadWorkspace_def Let_def split_beta split: option.splits prod.splits)

text \<open>
  What the inner \<^verbatim>\<open>try\<close> achieves. For a name with a record, an error thrown by the
  layout-apply call does not change the outcome of the load or the storage it leaves:
  they are those of the same load with a layout engine that returns, whatever else the
  host does; once the call is reached (the folder-state write, if any, returned) the
  warning is in the log and on the console. The load then goes on to the forced refresh
  of the file explorer, and only when that step completes does it return normally, make
  \<open>name\<close> the active workspace and trigger \<^verbatim>\<open>workspace-open\<close>. The refresh always completes
  when no folder restore is requested or the record has no snapshot.
  (The earlier revision of \<^verbatim>\<open>loadWorkspace\<close> in the same file has no inner \<^verbatim>\<open>try\<close>:
  there the error reaches the outer \<^verbatim>\<open>catch\<close> and is thrown again.)
\<close>

lemma loadWorkspace_layout_error:
  assumes rec: "getWorkspace (storage w) name = Some (WData d)"
    and raises: "changeLayoutError h = Some e"
  shows "fst (loadWorkspace h name r w) = fst (loadWorkspace (h\<lparr>changeLayoutError := None\<rparr>) name r w)
       \<and> storage (snd (loadWorkspace h name r w)) =
           storage (snd (loadWorkspace (h\<lparr>changeLayoutError := None\<rparr>) name r w))
       \<and> ((r \<longrightarrow> saveLocalStorageError h = None) \<longrightarrow>
             LogWarnLayoutChange \<in> set (newLogs w (snd (loadWorkspace h name r w)))
           \<and> ConsoleWarn e \<in> set (newEffects w (snd (loadWorkspace h name r w))))
       \<and> ((r \<longrightarrow> saveLocalStorageError h = None)
            \<and> fst (refreshExplorerStep h r (folderExpandState d) w) = None \<longrightarrow>
             fst (loadWorkspace h name r w) = Returned
           \<and> activeWorkspace (storage (snd (loadWorkspace h name r w))) = Some name
           \<and> workspaces (storage (snd (loadWorkspace h name r w))) = workspaces (storage w)
           \<and> Trigger (WorkspaceOpen name) \<in> set (newEffects w (snd (loadWorkspace h name r w)))
           \<and> (\<forall>n. Notice n \<notin> set (newEffects w (snd (loadWorkspace h name r w)))))
       \<and> (\<not> r \<or> \<not> truthyFolderState (folderExpandState d) \<and> saveLocalStorageError h = None \<longrightarrow>
             fst (loadWorkspace h name r w) = Returned
           \<and> activeWorkspace (storage (snd (loadWorkspace h name r w))) = Some name
           \<and> Trigger (WorkspaceOpen name) \<in> set (newEffects w (snd (loadWorkspace h name r w))))"
proof -
  let ?fs = "folderExpandState d"
  let ?h' = "h\<lparr>changeLayoutError := None\<rparr>"
  let ?w2 = "logMsg (LogHasFolderState (truthyFolderState ?fs))
                (logMsg (LogLastSaved (Some (lastSaved d)))
                  (logMsg (LogRestoreFolderState r) (logMsg (LogLoadWorkspace name) w)))"
  let ?s3 = "restoreFolderStateStep h r ?fs ?w2"
  let ?w4 = "changeLayoutStep h (Some (layout d)) (snd ?s3)"
  let ?w4' = "changeLayoutStep ?h' (Some (layout d)) (snd ?s3)"
  let ?s5 = "refreshExplorerStep h r ?fs ?w4"
  let ?s5' = "refreshExplorerStep h r ?fs ?w4'"
  have L: "loadWorkspace h name r w =
      (case fst ?s3 of Some e \<Rightarrow> (Threw e, failLoad e (snd ?s3))
       | None \<Rightarrow> (case fst ?s5 of Some e \<Rightarrow> (Threw e, failLoad e (snd ?s5))
                  | None \<Rightarrow> (Returned, finishLoad name (snd ?s5))))"
    by (rule loadWorkspace_record [OF rec])
  have L': "loadWorkspace ?h' name r w =
      (case fst ?s3 of Some e \<Rightarrow> (Threw e, failLoad e (snd ?s3))
       | None \<Rightarrow> (case fst ?s5' of Some e \<Rightarrow> (Threw e, failLoad e (snd ?s5'))
                  | None \<Rightarrow> (Returned, finishLoad name (snd ?s5'))))"
    using loadWorkspace_record [OF rec, of ?h' r]
    by (simp only: host_update_changeLayoutError)
  have same: "fst ?s5' = fst ?s5"
    by (rule refreshExplorerStep_error_indep)
  have st5: "storage (snd ?s5) = storage w" "storage (snd ?s5') = storage w"
    by (simp_all add: refreshExplorerStep_frame changeLayoutStep_simps restoreFolderStateStep_simps)
  have st3: "storage (snd ?s3) = storage w"
    by (simp add: restoreFolderStateStep_simps)
  have A: "fst (loadWorkspace h name r w) = fst (loadWorkspace ?h' name r w)"
    unfolding L L' same by (simp split: option.splits)
  have B: "storage (snd (loadWorkspace h name r w)) = storage (snd (loadWorkspace ?h' name r w))"
    unfolding L L' same using st5 st3
    by (simp add: failLoad_simps finishLoad_simps split: option.splits)
  obtain xs where ef5: "effects (snd ?s5) = effects ?w4 @ xs"
      and xs: "\<forall>x\<in>set xs. \<exists>p b. x = SetCollapsed p b"
    using refreshExplorerStep_effects [of h r ?fs ?w4] by blast
  obtain ys where lg5: "logs (snd ?s5) = logs ?w4 @ ys"
    using refreshExplorerStep_logs [of h r ?fs ?w4] by blast
  obtain zs where lg3: "logs (snd ?s3) = logs ?w2 @ zs"
    using restoreFolderStateStep_simps(5) [of h r ?fs ?w2] by blast
  have C: "LogWarnLayoutChange \<in> set (newLogs w (snd (loadWorkspace h name r w)))
           \<and> ConsoleWarn e \<in> set (newEffects w (snd (loadWorkspace h name r w)))"
    if reached: "r \<longrightarrow> saveLocalStorageError h = None"
  proof -
    have f3: "fst ?s3 = None" using reached by (simp add: restoreFolderStateStep_simps)
    have lg: "\<exists>us. logs (snd (loadWorkspace h name r w)) = logs w @ us \<and> LogWarnLayoutChange \<in> set us"
      unfolding L f3 using lg5 lg3 raises
      by (auto simp: failLoad_simps finishLoad_simps changeLayoutStep_simps split: option.splits)
    have ef: "\<exists>us. effects (snd (loadWorkspace h name r w)) = effects w @ us \<and> ConsoleWarn e \<in> set us"
      unfolding L f3 using ef5 raises
      by (auto simp: failLoad_simps finishLoad_simps changeLayoutStep_simps
          restoreFolderStateStep_simps split: option.splits)
    from lg ef show ?thesis by (auto simp: newLogs_def newEffects_def)
  qed
  have D: "fst (loadWorkspace h name r w) = Returned
           \<and> activeWorkspace (storage (snd (loadWorkspace h name r w))) = Some name
           \<and> workspaces (storage (snd (loadWorkspace h name r w))) = workspaces (storage w)
           \<and> Trigger (WorkspaceOpen name) \<in> set (newEffects w (snd (loadWorkspace h name r w)))
           \<and> (\<forall>n. Notice n \<notin> set (newEffects w (snd (loadWorkspace h name r w))))"
    if reached: "r \<longrightarrow> saveLocalStorageError h = None"
      and refr: "fst (refreshExplorerStep h r ?fs w) = None"
  proof -
    have f3: "fst ?s3 = None" using reached by (simp add: restoreFolderStateStep_simps)
    have f5: "fst ?s5 = None" using refr refreshExplorerStep_error_indep [of h r ?fs ?w4 w] by simp
    have Lr: "loadWorkspace h name r w = (Returned, finishLoad name (snd ?s5))"
      unfolding L f3 f5 by simp
    have ef: "effects (snd (loadWorkspace h name r w)) = effects w @
        ((if r then [WriteFolderStoreBegin (if truthyFolderState ?fs then ?fs else FNull), WriteFolderStoreEnd] else [])
          @ [ChangeLayoutBegin (Some (layout d)), ConsoleWarn e] @ xs
          @ [Trigger (WorkspaceOpen name), LoggerSave])"
      unfolding Lr using ef5 raises reached
      by (simp add: finishLoad_simps changeLayoutStep_simps restoreFolderStateStep_simps)
    have "newEffects w (snd (loadWorkspace h name r w)) =
        ((if r then [WriteFolderStoreBegin (if truthyFolderState ?fs then ?fs else FNull), WriteFolderStoreEnd] else [])
          @ [ChangeLayoutBegin (Some (layout d)), ConsoleWarn e] @ xs
          @ [Trigger (WorkspaceOpen name), LoggerSave])"
      using ef by (rule newEffects_append)
    moreover have "\<forall>n. Notice n \<notin> set xs" using xs by auto
    ultimately show ?thesis
      unfolding Lr using st5 by (auto simp: finishLoad_simps)
  qed
  have E: "fst (loadWorkspace h name r w) = Returned
           \<and> activeWorkspace (storage (snd (loadWorkspace h name r w))) = Some name
           \<and> Trigger (WorkspaceOpen name) \<in> set (newEffects w (snd (loadWorkspace h name r w)))"
    if easy: "\<not> r \<or> \<not> truthyFolderState ?fs \<and> saveLocalStorageError h = None"
  proof -
    have reached: "r \<longrightarrow> saveLocalStorageError h = None" using easy by blast
    have refr: "fst (refreshExplorerStep h r ?fs w) = None"
    proof (cases r)
      case True
      with easy have "\<not> truthyFolderState ?fs" by blast
      then show ?thesis by (rule refreshExplorerStep_no_snapshot)
    next
      case False
      then show ?thesis by (simp add: refreshExplorerStep_def split: option.splits)
    qed
    from D [OF reached refr] show ?thesis by blast
  qed
  from A B C D E show ?thesis by blast
qed

text \<open>
  Claim C3. For a workspace whose record has no folder-expansion snapshot, a load with
  folder restore requested writes \<^verbatim>\<open>null\<close> to the folder-state store before anything
  else; when that write returns, the store holds \<^verbatim>\<open>null\<close> whatever it held before, the
  layout is applied next, no notice is shown and the load returns normally with the
  workspace active. (The earlier revision of \<^verbatim>\<open>loadWorkspace\<close> has no such branch and
  leaves the store as it is.)
\<close>

theorem load_without_snapshot_clears_folder_store:
  assumes rec: "getWorkspace (storage w) name = Some (WData d)"
    and nosnap: "\<not> truthyFolderState (folderExpandState d)"
  shows "(\<exists>post. newEffects w (snd (loadWorkspace h name True w)) = WriteFolderStoreBegin FNull # post)
       \<and> (saveLocalStorageError h = None \<longrightarrow>
            folderStore (snd (loadWorkspace h name True w)) = FNull
          \<and> fst (loadWorkspace h name True w) = Returned
          \<and> activeWorkspace (storage (snd (loadWorkspace h name True w))) = Some name
          \<and> (\<forall>n. Notice n \<notin> set (newEffects w (snd (loadWorkspace h name True w))))
          \<and> (\<exists>post. newEffects w (snd (loadWorkspace h name True w)) =
                [WriteFolderStoreBegin FNull, WriteFolderStoreEnd,
                 ChangeLayoutBegin (Some (layout d))] @ post))"
proof -
  let ?fs = "folderExpandState d"
  let ?w2 = "logMsg (LogHasFolderState (truthyFolderState ?fs))
                (logMsg (LogLastSaved (Some (lastSaved d)))
                  (logMsg (LogRestoreFolderState True) (logMsg (LogLoadWorkspace name) w)))"
  let ?s3 = "restoreFolderStateStep h True ?fs ?w2"
  let ?w4 = "changeLayoutStep h (Some (layout d)) (snd ?s3)"
  let ?s5 = "refreshExplorerStep h True ?fs ?w4"
  have f5: "fst ?s5 = None" using nosnap by (rule refreshExplorerStep_no_snapshot)
  have L: "loadWorkspace h name True w =
      (case saveLocalStorageError h of Some e \<Rightarrow> (Threw e, failLoad e (snd ?s3))
       | None \<Rightarrow> (Returned, finishLoad name (snd ?s5)))"
    using loadWorkspace_record [OF rec, of h True] f5
    by (simp add: restoreFolderStateStep_simps split: option.splits)
  obtain xs where ef5: "effects (snd ?s5) = effects ?w4 @ xs"
      and xs: "\<forall>x\<in>set xs. \<exists>p b. x = SetCollapsed p b"
    using refreshExplorerStep_effects [of h True ?fs ?w4] by blast
  have st5: "storage (snd ?s5) = storage w" "folderStore (snd ?s5) = folderStore ?w4"
    by (simp_all add: refreshExplorerStep_frame changeLayoutStep_simps restoreFolderStateStep_simps)
  have ef: "effects (snd (loadWorkspace h name True w)) = effects w @
      (case saveLocalStorageError h of
         Some e \<Rightarrow> [WriteFolderStoreBegin FNull, LoggerSave, ConsoleError e, Notice (NoticeLoadFailed e)]
       | None \<Rightarrow> [WriteFolderStoreBegin FNull, WriteFolderStoreEnd, ChangeLayoutBegin (Some (layout d))]
           @ (case changeLayoutError h of None \<Rightarrow> [ChangeLayoutEnd] | Some e \<Rightarrow> [ConsoleWarn e])
           @ xs @ [Trigger (WorkspaceOpen name), LoggerSave])"
    unfolding L using ef5 nosnap
    by (simp add: failLoad_simps finishLoad_simps changeLayoutStep_simps
        restoreFolderStateStep_simps split: option.splits)
  have ne: "newEffects w (snd (loadWorkspace h name True w)) =
      (case saveLocalStorageError h of
         Some e \<Rightarrow> [WriteFolderStoreBegin FNull, LoggerSave, ConsoleError e, Notice (NoticeLoadFailed e)]
       | None \<Rightarrow> [WriteFolderStoreBegin FNull, WriteFolderStoreEnd, ChangeLayoutBegin (Some (layout d))]
           @ (case changeLayoutError h of None \<Rightarrow> [ChangeLayoutEnd] | Some e \<Rightarrow> [ConsoleWarn e])
           @ xs @ [Trigger (WorkspaceOpen name), LoggerSave])"
    using ef by (rule newEffects_append)
  have A: "\<exists>post. newEffects w (snd (loadWorkspace h name True w)) = WriteFolderStoreBegin FNull # post"
    unfolding ne by (simp split: option.splits)
  have B: "folderStore (snd (loadWorkspace h name True w)) = FNull
          \<and> fst (loadWorkspace h name True w) = Returned
          \<and> activeWorkspace (storage (snd (loadWorkspace h name True w))) = Some name
          \<and> (\<forall>n. Notice n \<notin> set (newEffects w (snd (loadWorkspace h name True w))))
          \<and> (\<exists>post. newEffects w (snd (loadWorkspace h name True w)) =
                [WriteFolderStoreBegin FNull, WriteFolderStoreEnd,
                 ChangeLayoutBegin (Some (layout d))] @ post)"
    if ok: "saveLocalStorageError h = None"
  proof -
    have "\<forall>n. Notice n \<notin> set xs" using xs by auto
    then show ?thesis
      unfolding ne unfolding L using ok st5 nosnap
      by (auto simp: finishLoad_simps changeLayoutStep_simps restoreFolderStateStep_simps
          split: option.splits)
  qed
  from A B show ?thesis by blast
qed


lemma example_research:
  "getWorkspace (storage exampleWorld) ''Research'' = Some (WData researchRecord)"
  by (simp add: exampleWorld_def exampleStorage_def getWorkspace_def getProp_def)

lemma example_writing:
  "getWorkspace (storage exampleWorld) ''Writing'' = Some (WData writingRecord)"
  by (simp add: exampleWorld_def exampleStorage_def getWorkspace_def getProp_def)

theorem load_writes_folder_state_before_layout_witness:
  "(\<exists>post. newEffects exampleWorld (snd (loadWorkspace quietHost ''Research'' True exampleWorld)) =
       [WriteFolderStoreBegin (FPaths [''notes'', ''notes/2024'']), WriteFolderStoreEnd,
        ChangeLayoutBegin (Some (LayoutBlob ''research-layout''))] @ post)
   \<and> folderStore (snd (loadWorkspace quietHost ''Research'' True exampleWorld)) =
       FPaths [''notes'', ''notes/2024'']"
proof -
  have snap: "truthyFolderState (folderExpandState researchRecord)"
    by (simp add: researchRecord_def)
  have ok: "saveLocalStorageError quietHost = None"
    by (simp add: quietHost_def)
  show ?thesis
    using load_writes_folder_state_before_layout [OF example_research snap, of quietHost] ok
    by (auto simp: researchRecord_def)
qed

lemma loadWorkspace_layout_error_example:
  "fst (loadWorkspace throwingLayoutHost ''Research'' True exampleWorld) = Returned
   \<and> activeWorkspace (storage (snd (loadWorkspace throwingLayoutHost ''Research'' True exampleWorld)))
       = Some ''Research''
   \<and> Trigger (WorkspaceOpen ''Research'')
       \<in> set (newEffects exampleWorld (snd (loadWorkspace throwingLayoutHost ''Research'' True exampleWorld)))
   \<and> LogWarnLayoutChange
       \<in> set (newLogs exampleWorld (snd (loadWorkspace throwingLayoutHost ''Research'' True exampleWorld)))"
proof -
  have raises: "changeLayoutError throwingLayoutHost = Some (HostError ''Templater'')"
    by (simp add: throwingLayoutHost_def)
  have reached: "True \<longrightarrow> saveLocalStorageError throwingLayoutHost = None"
    by (simp add: throwingLayoutHost_def quietHost_def)
  have refr: "fst (refreshExplorerStep throwingLayoutHost True (folderExpandState researchRecord)
                exampleWorld) = None"
    by (simp add: refreshExplorerStep_def throwingLayoutHost_def quietHost_def)
  show ?thesis
    using loadWorkspace_layout_error [OF example_research raises, of True] reached refr
    by blast
qed

theorem load_without_snapshot_clears_folder_store_witness:
  "folderStore exampleWorld = FPaths [''archive'']
   \<and> folderStore (snd (loadWorkspace quietHost ''Writing'' True exampleWorld)) = FNull
   \<and> fst (loadWorkspace quietHost ''Writing'' True exampleWorld) = Returned"
proof -
  have nosnap: "\<not> truthyFolderState (folderExpandState writingRecord)"
    by (simp add: writingRecord_def)
  have ok: "saveLocalStorageError quietHost = None"
    by (simp add: quietHost_def)
  show ?thesis
    using load_without_snapshot_clears_folder_store [OF example_writing nosnap, of quietHost] ok
    by (simp add: exampleWorld_def)
qed

text \<open>
  Claim C2. The claim: when the layout-apply call raises during a load of a name with a
  record, the error is logged and swallowed, and the load still makes the name active,
  still triggers \<^verbatim>\<open>workspace-open\<close> and still returns normally. The code does not keep
  this for every host. After the swallowed error the load walks the file explorer's
  tree; \<^verbatim>\<open>collapseAll\<close> calls \<^verbatim>\<open>node.setCollapsed\<close> only where the node has it, but
  \<^verbatim>\<open>expandSaved\<close> calls \<^verbatim>\<open>node.setCollapsed(false)\<close> unguarded. Load ``Research'', whose
  snapshot names the folder ``notes'', with folder restore requested, while ``Writing''
  is active, the layout engine throws and the explorer's node for ``notes'' has no
  \<^verbatim>\<open>setCollapsed\<close>: the layout error is swallowed (the console warning is in the trace),
  then the walk throws a \<^verbatim>\<open>TypeError\<close> that reaches the outer \<^verbatim>\<open>catch\<close>; the load shows
  the failure notice and throws, ``Writing'' stays active and \<^verbatim>\<open>workspace-open\<close> is not
  triggered. With the same layout error and no file explorer the load returns and
  ``Research'' is active.
\<close>

theorem load_fails_after_swallowed_layout_error:
  "getWorkspace (storage writingActiveWorld) ''Research'' = Some (WData researchRecord)
   \<and> changeLayoutError bareNodeHost = Some (HostError ''Templater'')
   \<and> fst (loadWorkspace bareNodeHost ''Research'' True writingActiveWorld) = Threw TypeError
   \<and> newEffects writingActiveWorld (snd (loadWorkspace bareNodeHost ''Research'' True writingActiveWorld)) =
       [WriteFolderStoreBegin (FPaths [''notes'', ''notes/2024'']), WriteFolderStoreEnd,
        ChangeLayoutBegin (Some (LayoutBlob ''research-layout'')),
        ConsoleWarn (HostError ''Templater''),
        SetCollapsed ''/'' True,
        LoggerSave, ConsoleError TypeError, Notice (NoticeLoadFailed TypeError)]
   \<and> activeWorkspace (storage (snd (loadWorkspace bareNodeHost ''Research'' True writingActiveWorld)))
       = Some ''Writing''
   \<and> fst (loadWorkspace throwingLayoutHost ''Research'' True writingActiveWorld) = Returned
   \<and> activeWorkspace (storage (snd (loadWorkspace throwingLayoutHost ''Research'' True writingActiveWorld)))
       = Some ''Research''"
proof -
  note defs = loadWorkspace_def getWorkspace_def getProp_def writingActiveWorld_def exampleWorld_def
    exampleStorage_def researchRecord_def restoreFolderStateStep_def saveLocalStorage_def
    refreshExplorerStep_def changeLayoutStep_def failLoad_def finishLoad_def bareNodeHost_def
    bareNodeTree_def throwingLayoutHost_def quietHost_def Let_def logMsg_def emit_def
    newEffects_def
  have a: "getWorkspace (storage writingActiveWorld) ''Research'' = Some (WData researchRecord)"
    by (simp add: defs)
  have b: "changeLayoutError bareNodeHost = Some (HostError ''Templater'')"
    by (simp add: bareNodeHost_def throwingLayoutHost_def)
  have c: "fst (loadWorkspace bareNodeHost ''Research'' True writingActiveWorld) = Threw TypeError"
    by (simp add: defs)
  have d: "newEffects writingActiveWorld (snd (loadWorkspace bareNodeHost ''Research'' True writingActiveWorld)) =
       [WriteFolderStoreBegin (FPaths [''notes'', ''notes/2024'']), WriteFolderStoreEnd,
        ChangeLayoutBegin (Some (LayoutBlob ''research-layout'')),
        ConsoleWarn (HostError ''Templater''),
        SetCollapsed ''/'' True,
        LoggerSave, ConsoleError TypeError, Notice (NoticeLoadFailed TypeError)]"
    by (simp add: defs)
  have e: "activeWorkspace (storage (snd (loadWorkspace bareNodeHost ''Research'' True writingActiveWorld)))
       = Some ''Writing''"
    by (simp add: defs)
  have f: "fst (loadWorkspace throwingLayoutHost ''Research'' True writingActiveWorld) = Returned"
    by (simp add: defs)
  have g: "activeWorkspace (storage (snd (loadWorkspace throwingLayoutHost ''Research'' True writingActiveWorld)))
       = Some ''Research''"
    by (simp add: defs)
  from a b c d e f g show ?thesis by (intro conjI)
qed

lemmas ex_defs = exampleWorld_def exampleStorage_def researchRecord_def writingRecord_def
  quietHost_def emptyWorld_def emptyStorage_def forgetfulPlugin_def DEFAULT_SETTINGS_def
  exampleLayouts_def exampleSidebars_def

lemma not_blank_Research: "\<not> isBlank ''Research''"
  by (simp add: isBlank_def trim_def isWhiteSpace_def)


section \<open>Delete and rename\<close>

text \<open>
  \<^verbatim>\<open>deleteWorkspace\<close> in its two branches, and what they amount to for a name that is
  not a property name inherited by the workspaces object.
\<close>

lemma deleteWorkspace_missing:
  "\<not> hasWorkspace (storage w) name \<Longrightarrow>
   storage (deleteWorkspace name w) = storage w
   \<and> folderStore (deleteWorkspace name w) = folderStore w
   \<and> effects (deleteWorkspace name w) = effects w @ [Notice (NoticeNotFound name)]"
  by (simp add: deleteWorkspace_def Let_def)

lemma deleteWorkspace_present:
  "hasWorkspace (storage w) name \<Longrightarrow>
   storage (deleteWorkspace name w) =
     (storage w)\<lparr>workspaces := deleteProp (workspaces (storage w)) name,
                 activeWorkspace := (if activeWorkspace (storage w) = Some name then None
                                     else activeWorkspace (storage w))\<rparr>
   \<and> folderStore (deleteWorkspace name w) = folderStore w
   \<and> effects (deleteWorkspace name w) = effects w @ [Trigger (WorkspaceDelete name), LoggerSave]"
  by (simp add: deleteWorkspace_def Let_def)

lemma deleteWorkspace_ordinary_name:
  assumes ord: "name \<notin> set (inheritedKeys (prototype (workspaces (storage w))))"
  shows "(hasOwn (workspaces (storage w)) name \<longrightarrow>
            \<not> hasWorkspace (storage (deleteWorkspace name w)) name
          \<and> getWorkspace (storage (deleteWorkspace name w)) name = None
          \<and> activeWorkspace (storage (deleteWorkspace name w)) =
              (if activeWorkspace (storage w) = Some name then None else activeWorkspace (storage w))
          \<and> (\<forall>k. k \<noteq> name \<longrightarrow>
                getProp (workspaces (storage (deleteWorkspace name w))) k
                  = getProp (workspaces (storage w)) k))
       \<and> (\<not> hasOwn (workspaces (storage w)) name \<longrightarrow>
            storage (deleteWorkspace name w) = storage w
          \<and> newEffects w (deleteWorkspace name w) = [Notice (NoticeNotFound name)])"
proof (cases "hasOwn (workspaces (storage w)) name")
  case True
  then have h: "hasWorkspace (storage w) name" by (simp add: hasWorkspace_def hasProperty_def)
  show ?thesis
    using True ord deleteWorkspace_present [OF h]
    by (simp add: hasWorkspace_def hasProperty_def hasOwn_deleteProp prototype_deleteProp
        getWorkspace_def getProp_deleteProp inheritedValue_ordinary)
next
  case False
  with ord have h: "\<not> hasWorkspace (storage w) name" by (simp add: hasWorkspace_def hasProperty_def)
  show ?thesis using False deleteWorkspace_missing [OF h] by simp
qed

text \<open>
  Claim C8 (delete removes the record, clears the active pointer when it pointed to it,
  and reports ``not found'' for a name without record, leaving the store unchanged)
  holds for every name that is not an inherited property name of the workspaces object
  (\<open>deleteWorkspace_ordinary_name\<close>). The code decides ``has a record'' with
  \<^verbatim>\<open>name in this.storage.workspaces\<close>, which is also true for the names inherited from
  \<^verbatim>\<open>Object.prototype\<close>: on the empty store, deleting ``constructor'' reports nothing and
  triggers \<^verbatim>\<open>workspace-delete\<close>.
\<close>

theorem delete_of_inherited_name:
  "\<not> hasOwn (workspaces (storage emptyWorld)) ''constructor''
   \<and> hasWorkspace (storage emptyWorld) ''constructor''
   \<and> deleteWorkspace ''constructor'' emptyWorld =
       \<lparr>storage = emptyStorage,
        logs = [LogDeleteWorkspace ''constructor'', LogDeleted ''constructor''],
        folderStore = FNull,
        effects = [Trigger (WorkspaceDelete ''constructor''), LoggerSave]\<rparr>"
  by (simp add: ex_defs deleteWorkspace_def hasWorkspace_def hasProperty_def hasOwn_def
      objectPrototypeKeys_def deleteProp_def logMsg_def emit_def Let_def)


text \<open>
  \<^verbatim>\<open>renameWorkspace\<close> in its failing and its succeeding branch, and what they amount to
  for names that are not inherited property names.
\<close>

lemma renameWorkspace_fails:
  "\<not> hasWorkspace (storage w) oldName \<or> hasWorkspace (storage w) newName \<or> isBlank newName \<Longrightarrow>
   storage (renameWorkspace oldName newName w) = storage w
   \<and> folderStore (renameWorkspace oldName newName w) = folderStore w
   \<and> (\<exists>n. newEffects w (renameWorkspace oldName newName w) = [Notice n])"
  by (auto simp: renameWorkspace_def Let_def)

lemma renameWorkspace_succeeds:
  "hasWorkspace (storage w) oldName \<Longrightarrow> \<not> hasWorkspace (storage w) newName \<Longrightarrow>
   \<not> isBlank newName \<Longrightarrow>
   storage (renameWorkspace oldName newName w) =
     (storage w)\<lparr>workspaces :=
        deleteProp (setProp (workspaces (storage w)) newName
                      (getProp (workspaces (storage w)) oldName)) oldName,
        activeWorkspace := (if activeWorkspace (storage w) = Some oldName then Some newName
                            else activeWorkspace (storage w))\<rparr>
   \<and> folderStore (renameWorkspace oldName newName w) = folderStore w
   \<and> effects (renameWorkspace oldName newName w) =
       effects w @ [Trigger (WorkspaceRename newName oldName), LoggerSave]"
  by (simp add: renameWorkspace_def Let_def)

lemma renameWorkspace_ordinary_names:
  assumes o1: "oldName \<notin> set (inheritedKeys (prototype (workspaces (storage w))))"
    and o2: "newName \<notin> set (inheritedKeys (prototype (workspaces (storage w))))"
  shows "(hasOwn (workspaces (storage w)) oldName \<and> \<not> hasOwn (workspaces (storage w)) newName
          \<and> \<not> isBlank newName \<longrightarrow>
            \<not> hasWorkspace (storage (renameWorkspace oldName newName w)) oldName
          \<and> hasWorkspace (storage (renameWorkspace oldName newName w)) newName
          \<and> getProp (workspaces (storage (renameWorkspace oldName newName w))) newName
              = getProp (workspaces (storage w)) oldName
          \<and> activeWorkspace (storage (renameWorkspace oldName newName w)) =
              (if activeWorkspace (storage w) = Some oldName then Some newName
               else activeWorkspace (storage w))
          \<and> (\<forall>k. k \<noteq> oldName \<and> k \<noteq> newName \<longrightarrow>
                getProp (workspaces (storage (renameWorkspace oldName newName w))) k
                  = getProp (workspaces (storage w)) k))
       \<and> (\<not> hasOwn (workspaces (storage w)) oldName \<or> hasOwn (workspaces (storage w)) newName
          \<or> isBlank newName \<longrightarrow>
            storage (renameWorkspace oldName newName w) = storage w
          \<and> (\<exists>n. newEffects w (renameWorkspace oldName newName w) = [Notice n]))"
proof -
  have np: "newName \<noteq> ''__proto__''" using o2 proto_inherited by auto
  have A: "\<not> hasWorkspace (storage (renameWorkspace oldName newName w)) oldName
          \<and> hasWorkspace (storage (renameWorkspace oldName newName w)) newName
          \<and> getProp (workspaces (storage (renameWorkspace oldName newName w))) newName
              = getProp (workspaces (storage w)) oldName
          \<and> activeWorkspace (storage (renameWorkspace oldName newName w)) =
              (if activeWorkspace (storage w) = Some oldName then Some newName
               else activeWorkspace (storage w))
          \<and> (\<forall>k. k \<noteq> oldName \<and> k \<noteq> newName \<longrightarrow>
                getProp (workspaces (storage (renameWorkspace oldName newName w))) k
                  = getProp (workspaces (storage w)) k)"
    if own: "hasOwn (workspaces (storage w)) oldName" "\<not> hasOwn (workspaces (storage w)) newName"
      and nb: "\<not> isBlank newName"
  proof -
    have h1: "hasWorkspace (storage w) oldName" using own by (simp add: hasWorkspace_def hasProperty_def)
    have h2: "\<not> hasWorkspace (storage w) newName" using own o2 by (simp add: hasWorkspace_def hasProperty_def)
    have ne: "oldName \<noteq> newName" using own by auto
    have gp: "getProp (setProp (workspaces (storage w)) newName v) newName = v" for v
      using own(2) np by (simp add: getProp_setProp_new)
    let ?obj = "workspaces (storage w)"
    let ?obj' = "deleteProp (setProp ?obj newName (getProp ?obj oldName)) oldName"
    have st: "storage (renameWorkspace oldName newName w) =
        (storage w)\<lparr>workspaces := ?obj',
           activeWorkspace := (if activeWorkspace (storage w) = Some oldName then Some newName
                               else activeWorkspace (storage w))\<rparr>"
      using renameWorkspace_succeeds [OF h1 h2 nb] by simp
    have npo: "newName \<noteq> ''__proto__'' \<or> hasOwn ?obj newName" using np by simp
    have pr: "prototype ?obj' = prototype ?obj"
      by (simp add: prototype_deleteProp prototype_setProp [OF npo])
    have a1: "\<not> hasProperty ?obj' oldName"
      using o1 by (simp add: hasProperty_def pr hasOwn_deleteProp)
    have a2: "hasProperty ?obj' newName"
      using ne by (simp add: hasProperty_def hasOwn_deleteProp hasOwn_setProp [OF npo])
    have a3: "getProp ?obj' newName = getProp ?obj oldName"
      using ne gp by (simp add: getProp_deleteProp)
    have a4: "getProp ?obj' k = getProp ?obj k" if "k \<noteq> oldName" "k \<noteq> newName" for k
      using that by (simp add: getProp_deleteProp getProp_setProp_other [OF _ npo])
    show ?thesis
      unfolding st using a1 a2 a3 a4 by (simp add: hasWorkspace_def)
  qed
  have B: "storage (renameWorkspace oldName newName w) = storage w
          \<and> (\<exists>n. newEffects w (renameWorkspace oldName newName w) = [Notice n])"
    if "\<not> hasOwn (workspaces (storage w)) oldName \<or> hasOwn (workspaces (storage w)) newName
          \<or> isBlank newName"
  proof -
    from that o1 have "\<not> hasWorkspace (storage w) oldName \<or> hasWorkspace (storage w) newName \<or> isBlank newName"
      by (auto simp: hasWorkspace_def hasProperty_def)
    from renameWorkspace_fails [OF this] show ?thesis by simp
  qed
  from A B show ?thesis by blast
qed

text \<open>
  Claim C4 (rename is atomic: it moves the record when the old name is present and the
  new one is absent and not blank, and otherwise reports an error and changes nothing)
  holds for names that are not inherited property names of the workspaces object
  (\<open>renameWorkspace_ordinary_names\<close>). With \<^verbatim>\<open>in\<close> as the test, renaming ``Research''
  to ``constructor'' is refused as already existing although no record has that name,
  and renaming the absent ``toString'' on the empty store passes both guards, stores
  the inherited function under the new name and triggers \<^verbatim>\<open>workspace-rename\<close>.
\<close>

theorem rename_with_inherited_names:
  "\<not> hasOwn (workspaces (storage exampleWorld)) ''constructor''
   \<and> \<not> isBlank ''constructor''
   \<and> storage (renameWorkspace ''Research'' ''constructor'' exampleWorld) = storage exampleWorld
   \<and> effects (renameWorkspace ''Research'' ''constructor'' exampleWorld) =
       [Notice (NoticeAlreadyExists ''constructor'')]
   \<and> \<not> hasOwn (workspaces (storage emptyWorld)) ''toString''
   \<and> ownProps (workspaces (storage (renameWorkspace ''toString'' ''Scratch'' emptyWorld))) =
       [(''Scratch'', WForeign)]
   \<and> effects (renameWorkspace ''toString'' ''Scratch'' emptyWorld) =
       [Trigger (WorkspaceRename ''Scratch'' ''toString''), LoggerSave]
   \<and> hasWorkspace (storage (renameWorkspace ''toString'' ''Scratch'' emptyWorld)) ''toString''"
  by (simp add: ex_defs renameWorkspace_def hasWorkspace_def hasProperty_def hasOwn_def
      objectPrototypeKeys_def deleteProp_def setProp_def getProp_def isBlank_def trim_def
      isWhiteSpace_def logMsg_def emit_def Let_def)


section \<open>Save: facts\<close>

lemma captureFolderState_frame:
  "storage (snd (captureFolderState h b w)) = storage w"
  "folderStore (snd (captureFolderState h b w)) = folderStore w"
  by (simp_all add: captureFolderState_def folderStateFromTree_def Let_def
      split: option.splits explorerView.splits)

lemma captureFolderState_off:
  "captureFolderState h False w = (Inr FUndefined, logMsg LogFolderStateNotSaved w)"
  by (simp add: captureFolderState_def)

lemma saveWorkspace_storage:
  "storage (snd (saveWorkspace h name b w)) = storage w \<or>
   (\<exists>d. storage (snd (saveWorkspace h name b w)) =
      (storage w)\<lparr>workspaces := setProp (workspaces (storage w)) name (WData d),
                  activeWorkspace := Some name\<rparr>)"
proof (cases "captureFolderState h b (logMsg LogLayoutCaptured
      (emit GetLayout (logMsg (LogSaveFolderState b) (logMsg (LogSaveWorkspace name) w))))")
  case (Pair r w4)
  have "storage w4 = storage w"
    using captureFolderState_frame(1) [of h b "logMsg LogLayoutCaptured
      (emit GetLayout (logMsg (LogSaveFolderState b) (logMsg (LogSaveWorkspace name) w)))"] Pair
    by simp
  then show ?thesis
    using Pair
    by (cases r; cases "getLayoutResult h")
       (auto simp: saveWorkspace_def Let_def failSave_def)
qed

lemma saveWorkspace_without_folder_state:
  assumes "\<not> isBlank name" "getLayoutResult h = Inr lay"
  shows "fst (saveWorkspace h name False w) = Returned"
    "storage (snd (saveWorkspace h name False w)) =
       (storage w)\<lparr>workspaces :=
           setProp (workspaces (storage w)) name
             (WData \<lparr>layout = lay, lastSaved = dateNow h, folderExpandState = FUndefined,
                      metadata = None\<rparr>),
         activeWorkspace := Some name\<rparr>"
    "folderStore (snd (saveWorkspace h name False w)) = folderStore w"
    "effects (snd (saveWorkspace h name False w)) = effects w @ [GetLayout, LoggerSave]"
  using assms by (simp_all add: saveWorkspace_def Let_def captureFolderState_off)


text \<open>
  Claim C7, as the code has it. A save replaces the record as a whole. With navigation
  memory disabled the callers pass \<^verbatim>\<open>saveFolderState = false\<close>: the new record holds the
  captured layout, the current time and no folder state (\<^verbatim>\<open>undefined\<close>), so a snapshot
  recorded earlier is discarded, and \<^verbatim>\<open>metadata\<close> is dropped. What is left unchanged is
  the sidebar snapshot that the plugin keeps in \<^verbatim>\<open>navigationLayouts\<close>
  (\<^verbatim>\<open>saveNavigationLayout\<close> returns at once) and the host's folder-state store.
\<close>

theorem save_without_memory_replaces_the_record:
  assumes off: "\<not> rememberNavigationLayout (settings p)"
    and nb: "\<not> isBlank name"
    and lay: "getLayoutResult h = Inr lay"
  shows "saveNavigationLayout name p = p
       \<and> fst (saveWorkspace h name False w) = Returned
       \<and> getWorkspace (storage (snd (saveWorkspace h name False w))) name =
           Some (WData \<lparr>layout = lay, lastSaved = dateNow h, folderExpandState = FUndefined,
                         metadata = None\<rparr>)
       \<and> folderStore (snd (saveWorkspace h name False w)) = folderStore w
       \<and> (activeWorkspace (storage (manager p)) = Some name \<longrightarrow>
            fst (saveCurrentWorkspace h p) = Returned
          \<and> navigationLayouts (snd (saveCurrentWorkspace h p)) = navigationLayouts p
          \<and> getWorkspace (storage (manager (snd (saveCurrentWorkspace h p)))) name =
              Some (WData \<lparr>layout = lay, lastSaved = dateNow h, folderExpandState = FUndefined,
                            metadata = None\<rparr>))"
proof -
  have A: "saveNavigationLayout name p = p"
    using off by (simp add: saveNavigationLayout_def)
  have B: "getWorkspace (storage (snd (saveWorkspace h name False w))) name =
           Some (WData \<lparr>layout = lay, lastSaved = dateNow h, folderExpandState = FUndefined,
                         metadata = None\<rparr>)" for w
    by (simp add: saveWorkspace_without_folder_state [OF nb lay] getWorkspace_def
        getProp_setProp_record)
  have ne: "name \<noteq> []" using nb by (auto simp: isBlank_def)
  have C: "fst (saveCurrentWorkspace h p) = Returned
          \<and> navigationLayouts (snd (saveCurrentWorkspace h p)) = navigationLayouts p
          \<and> getWorkspace (storage (manager (snd (saveCurrentWorkspace h p)))) name =
              Some (WData \<lparr>layout = lay, lastSaved = dateNow h, folderExpandState = FUndefined,
                            metadata = None\<rparr>)"
    if act: "activeWorkspace (storage (manager p)) = Some name"
    using act ne off A B [of "manager p"] saveWorkspace_without_folder_state(1) [OF nb lay, of "manager p"]
    by (simp add: saveCurrentWorkspace_def getActiveWorkspace_def Let_def)
  show ?thesis
    using A B [of w] C saveWorkspace_without_folder_state [OF nb lay, of w] by simp
qed


text \<open>
  The claim as stated fails: ``Research'' has a folder snapshot, navigation memory is
  off, and after the command \<^verbatim>\<open>save-current-workspace\<close> the record has none.
\<close>

theorem save_without_memory_discards_folder_state:
  "rememberNavigationLayout (settings forgetfulPlugin) = False
   \<and> getWorkspace (storage (manager forgetfulPlugin)) ''Research'' = Some (WData researchRecord)
   \<and> folderExpandState researchRecord = FPaths [''notes'', ''notes/2024'']
   \<and> fst (saveCurrentWorkspace quietHost forgetfulPlugin) = Returned
   \<and> getWorkspace (storage (manager (snd (saveCurrentWorkspace quietHost forgetfulPlugin)))) ''Research''
       = Some (WData \<lparr>layout = LayoutBlob ''current-layout'', lastSaved = 1700000001000,
                      folderExpandState = FUndefined, metadata = None\<rparr>)"
  by (simp add: ex_defs saveCurrentWorkspace_def getActiveWorkspace_def saveNavigationLayout_def
      saveWorkspace_def captureFolderState_def isBlank_def trim_def isWhiteSpace_def
      getWorkspace_def getProp_def setProp_def hasOwn_def logMsg_def emit_def Let_def)


theorem save_without_memory_replaces_the_record_witness:
  "navigationLayouts (snd (saveCurrentWorkspace quietHost forgetfulPlugin)) = exampleLayouts
   \<and> getWorkspace (storage (manager (snd (saveCurrentWorkspace quietHost forgetfulPlugin)))) ''Research''
       = Some (WData \<lparr>layout = LayoutBlob ''current-layout'', lastSaved = 1700000001000,
                      folderExpandState = FUndefined, metadata = None\<rparr>)"
proof -
  have off: "\<not> rememberNavigationLayout (settings forgetfulPlugin)"
    by (simp add: forgetfulPlugin_def DEFAULT_SETTINGS_def)
  have lay: "getLayoutResult quietHost = Inr (LayoutBlob ''current-layout'')"
    by (simp add: quietHost_def)
  have act: "activeWorkspace (storage (manager forgetfulPlugin)) = Some ''Research''"
    by (simp add: forgetfulPlugin_def exampleWorld_def exampleStorage_def)
  show ?thesis
    using save_without_memory_replaces_the_record [OF off not_blank_Research lay, of exampleWorld] act
    by (simp add: forgetfulPlugin_def quietHost_def)
qed


section \<open>The active pointer: what the operations keep\<close>

lemma loadWorkspace_storage:
  "storage (snd (loadWorkspace h name r w)) = storage w \<or>
   (getWorkspace (storage w) name \<noteq> None \<and>
    storage (snd (loadWorkspace h name r w)) = (storage w)\<lparr>activeWorkspace := Some name\<rparr>)"
proof (cases "getWorkspace (storage w) name")
  case None
  then show ?thesis by (simp add: loadWorkspace_def Let_def)
next
  case (Some v)
  let ?w2 = "logMsg (LogHasFolderState (truthyFolderState (folderStateOf v)))
               (logMsg (LogLastSaved (lastSavedOf v))
                 (logMsg (LogRestoreFolderState r) (logMsg (LogLoadWorkspace name) w)))"
  let ?s3 = "restoreFolderStateStep h r (folderStateOf v) ?w2"
  let ?s5 = "refreshExplorerStep h r (folderStateOf v) (changeLayoutStep h (layoutOf v) (snd ?s3))"
  have L: "loadWorkspace h name r w =
      (case fst ?s3 of Some e \<Rightarrow> (Threw e, failLoad e (snd ?s3))
       | None \<Rightarrow> (case fst ?s5 of Some e \<Rightarrow> (Threw e, failLoad e (snd ?s5))
                  | None \<Rightarrow> (Returned, finishLoad name (snd ?s5))))"
    using Some by (simp add: loadWorkspace_def Let_def split_beta split: option.splits prod.splits)
  have "storage (snd ?s3) = storage w" "storage (snd ?s5) = storage w"
    by (simp_all add: refreshExplorerStep_frame changeLayoutStep_simps restoreFolderStateStep_simps)
  then show ?thesis
    unfolding L using Some by (simp add: failLoad_simps finishLoad_simps split: option.splits)
qed

lemma getWorkspace_own:
  assumes "getWorkspace s name \<noteq> None"
    and "hasOwn (workspaces s) name \<or> name \<notin> set (inheritedKeys (prototype (workspaces s)))"
  shows "hasOwn (workspaces s) name"
proof (rule ccontr)
  assume n: "\<not> hasOwn (workspaces s) name"
  with assms(2) have "name \<notin> set (inheritedKeys (prototype (workspaces s)))" by simp
  then have "inheritedValue (prototype (workspaces s)) name = WFalsy"
    by (rule inheritedValue_ordinary)
  with n have "getProp (workspaces s) name = WFalsy"
    by (simp add: getProp_def hasOwn_map_of)
  with assms(1) show False by (simp add: getWorkspace_def)
qed

lemma delete_keeps_active_pointer:
  assumes inv: "activeIsRecord (storage w)"
  shows "activeIsRecord (storage (deleteWorkspace name w))"
proof (cases "hasWorkspace (storage w) name")
  case True
  show ?thesis
    using inv deleteWorkspace_present [OF True]
    by (auto simp: activeIsRecord_def hasOwn_deleteProp split: option.splits)
next
  case False
  then show ?thesis using inv deleteWorkspace_missing [of w name] by simp
qed

lemma rename_keeps_active_pointer:
  assumes inv: "activeIsRecord (storage w)"
  shows "activeIsRecord (storage (renameWorkspace oldName newName w))"
proof (cases "hasWorkspace (storage w) oldName \<and> \<not> hasWorkspace (storage w) newName \<and> \<not> isBlank newName")
  case True
  then have h: "hasWorkspace (storage w) oldName" "\<not> hasWorkspace (storage w) newName"
    "\<not> isBlank newName" by simp_all
  have np: "newName \<noteq> ''__proto__'' \<or> hasOwn (workspaces (storage w)) newName"
    using h(2) proto_inherited [of "prototype (workspaces (storage w))"]
    by (auto simp: hasWorkspace_def hasProperty_def)
  have ne: "oldName \<noteq> newName" using h by auto
  show ?thesis
    using inv renameWorkspace_succeeds [OF h] ne
    by (auto simp: activeIsRecord_def hasOwn_deleteProp hasOwn_setProp [OF np] split: option.splits)
next
  case False
  then have "\<not> hasWorkspace (storage w) oldName \<or> hasWorkspace (storage w) newName \<or> isBlank newName"
    by blast
  from renameWorkspace_fails [OF this] inv show ?thesis by simp
qed

lemma save_keeps_active_pointer:
  assumes inv: "activeIsRecord (storage w)"
    and ord: "name \<noteq> ''__proto__'' \<or> hasOwn (workspaces (storage w)) name"
  shows "activeIsRecord (storage (snd (saveWorkspace h name b w)))"
  using saveWorkspace_storage [of h name b w]
proof (elim disjE exE)
  assume e: "storage (snd (saveWorkspace h name b w)) = storage w"
  show ?thesis unfolding e by (rule inv)
next
  fix d
  assume e: "storage (snd (saveWorkspace h name b w)) =
      (storage w)\<lparr>workspaces := setProp (workspaces (storage w)) name (WData d),
                  activeWorkspace := Some name\<rparr>"
  show ?thesis unfolding e by (simp add: activeIsRecord_def hasOwn_setProp [OF ord])
qed

lemma load_keeps_active_pointer:
  assumes inv: "activeIsRecord (storage w)"
    and ord: "hasOwn (workspaces (storage w)) name
              \<or> name \<notin> set (inheritedKeys (prototype (workspaces (storage w))))"
  shows "activeIsRecord (storage (snd (loadWorkspace h name r w)))"
  using loadWorkspace_storage [of h name r w]
proof (elim disjE conjE)
  assume e: "storage (snd (loadWorkspace h name r w)) = storage w"
  show ?thesis unfolding e by (rule inv)
next
  assume g: "getWorkspace (storage w) name \<noteq> None"
    and e: "storage (snd (loadWorkspace h name r w)) = (storage w)\<lparr>activeWorkspace := Some name\<rparr>"
  show ?thesis unfolding e using getWorkspace_own [OF g ord] by (simp add: activeIsRecord_def)
qed

lemma setActive_keeps_active_pointer:
  assumes inv: "activeIsRecord s"
    and ord: "hasOwn (workspaces s) name \<or> name \<notin> set (inheritedKeys (prototype (workspaces s)))"
  shows "activeIsRecord (setActiveWorkspace name s)"
  using inv ord
  by (auto simp: setActiveWorkspace_def activeIsRecord_def hasWorkspace_def hasProperty_def)

text \<open>
  Claim C10 (every operation keeps the active pointer \<^verbatim>\<open>null\<close> or the key of a record).
  Delete and rename keep it for every name; save keeps it unless the name is
  \<^verbatim>\<open>__proto__\<close>; load and \<^verbatim>\<open>setActiveWorkspace\<close> keep it for every name that is a
  record's key or is not an inherited property name. \<^verbatim>\<open>setActiveWorkspace\<close> guards with
  \<^verbatim>\<open>hasWorkspace\<close>, that is with \<^verbatim>\<open>in\<close>: on the empty store it makes ``constructor''
  the active workspace although no record has that name.
\<close>

theorem set_active_to_inherited_name:
  "activeIsRecord emptyStorage
   \<and> \<not> hasOwn (workspaces emptyStorage) ''constructor''
   \<and> activeWorkspace (setActiveWorkspace ''constructor'' emptyStorage) = Some ''constructor''
   \<and> \<not> activeIsRecord (setActiveWorkspace ''constructor'' emptyStorage)"
  by (simp add: ex_defs setActiveWorkspace_def activeIsRecord_def hasWorkspace_def
      hasProperty_def hasOwn_def objectPrototypeKeys_def)

section \<open>The natural comparator and the list of names\<close>


lemma compareNat_self: "compareNat n n = 0"
  by (simp add: compareNat_def)

lemma compareNat_flip: "compareNat n m = - compareNat m n"
  by (simp add: compareNat_def)

lemma compareNat_eq0: "(compareNat m n = 0) = (m = n)"
  by (auto simp: compareNat_def)

lemma compareNat_le0: "(compareNat m n \<le> 0) = (m \<le> n)"
  by (auto simp: compareNat_def)

lemma compareEntry_self: "compareEntry x x = 0"
  by (simp add: compareEntry_def compareNat_self)

lemma compareEntry_flip: "compareEntry y x = - compareEntry x y"
  by (simp add: compareEntry_def compareNat_def)

lemma compareEntry_eq0: "(compareEntry x y = 0) = (x = y)"
  by (auto simp: compareEntry_def compareNat_def prod_eq_iff split: if_splits)

lemma compareEntry_le0:
  "(compareEntry x y \<le> 0) = (fst x < fst y \<or> (fst x = fst y \<and> snd x \<le> snd y))"
  by (auto simp: compareEntry_def compareNat_def split: if_splits)

lemma compareEntry_trans:
  "compareEntry x y \<le> 0 \<Longrightarrow> compareEntry y z \<le> 0 \<Longrightarrow> compareEntry x z \<le> 0"
  by (auto simp: compareEntry_le0)

lemma compareKeys_self: "compareKeys xs xs = 0"
  by (induction xs) (simp_all add: compareEntry_self)

lemma compareKeys_flip: "compareKeys ys xs = - compareKeys xs ys"
proof (induction xs ys rule: compareKeys.induct)
  case (4 x xs y ys)
  then show ?case
    using compareEntry_flip [of y x] by (simp add: compareEntry_eq0)
qed simp_all

lemma compareKeys_eq0: "(compareKeys xs ys = 0) = (xs = ys)"
proof (induction xs ys rule: compareKeys.induct)
  case (4 x xs y ys)
  then show ?case by (auto simp: compareEntry_eq0)
qed simp_all

lemma compareKeys_trans:
  "compareKeys xs ys \<le> 0 \<Longrightarrow> compareKeys ys zs \<le> 0 \<Longrightarrow> compareKeys xs zs \<le> 0"
proof (induction xs ys arbitrary: zs rule: compareKeys.induct)
  case (1)
  then show ?case by (cases zs) simp_all
next
  case (2 y ys)
  then show ?case by (cases zs) simp_all
next
  case (3 x xs)
  then show ?case by simp
next
  case (4 x xs y ys)
  show ?case
  proof (cases zs)
    case Nil
    with 4 show ?thesis by simp
  next
    case (Cons z zs')
    show ?thesis
    proof (cases "x = y")
      case True
      with 4 Cons show ?thesis by (auto simp: compareEntry_eq0 split: if_splits)
    next
      case xy: False
      with 4 have lxy: "compareEntry x y \<le> 0" by (simp add: compareEntry_eq0)
      show ?thesis
      proof (cases "y = z")
        case True
        with xy lxy Cons show ?thesis by (simp add: compareEntry_eq0)
      next
        case yz: False
        with 4 Cons have lyz: "compareEntry y z \<le> 0" by (simp add: compareEntry_eq0)
        have "compareEntry x z \<le> 0" using lxy lyz by (rule compareEntry_trans)
        moreover have "x \<noteq> z"
          using lxy lyz xy yz by (auto simp: compareEntry_le0 prod_eq_iff)
        ultimately show ?thesis using Cons by (simp add: compareEntry_eq0)
      qed
    qed
  qed
qed

lemma mset_insertSorted: "mset (insertSorted c x xs) = add_mset x (mset xs)"
  by (induction xs) simp_all

lemma mset_jsSort: "mset (jsSort c xs) = mset xs"
  by (induction xs) (simp_all add: jsSort_def mset_insertSorted)

lemma set_insertSorted: "set (insertSorted c x xs) = insert x (set xs)"
  by (induction xs) auto

lemma sorted_insertSorted:
  assumes tot: "\<And>a b. c a b \<le> 0 \<or> c b a \<le> 0"
    and tr: "\<And>a b d. c a b \<le> 0 \<Longrightarrow> c b d \<le> 0 \<Longrightarrow> c a d \<le> 0"
    and s: "sorted_wrt (\<lambda>a b. c a b \<le> 0) xs"
  shows "sorted_wrt (\<lambda>a b. c a b \<le> 0) (insertSorted c x xs)"
  using s
proof (induction xs)
  case Nil
  then show ?case by simp
next
  case (Cons y ys)
  show ?case
  proof (cases "c x y \<le> 0")
    case True
    with Cons.prems show ?thesis using tr by auto
  next
    case False
    then have "c y x \<le> 0" using tot [of x y] by simp
    with False Cons show ?thesis by (auto simp: set_insertSorted)
  qed
qed

lemma sorted_jsSort:
  assumes tot: "\<And>a b. c a b \<le> 0 \<or> c b a \<le> 0"
    and tr: "\<And>a b d. c a b \<le> 0 \<Longrightarrow> c b d \<le> 0 \<Longrightarrow> c a d \<le> 0"
  shows "sorted_wrt (\<lambda>a b. c a b \<le> 0) (jsSort c xs)"
proof (induction xs)
  case Nil
  then show ?case by (simp add: jsSort_def)
next
  case (Cons x xs)
  have "jsSort c (x # xs) = insertSorted c x (jsSort c xs)" by (simp add: jsSort_def)
  with Cons show ?case using sorted_insertSorted [OF tot tr] by simp
qed

lemma naturalCompare_total: "naturalCompare a b \<le> 0 \<or> naturalCompare b a \<le> 0"
  using compareKeys_flip [of "naturalKey b" "naturalKey a"] by (auto simp: naturalCompare_def)

lemma naturalCompare_trans:
  "naturalCompare a b \<le> 0 \<Longrightarrow> naturalCompare b d \<le> 0 \<Longrightarrow> naturalCompare a d \<le> 0"
  unfolding naturalCompare_def by (rule compareKeys_trans)

lemma mset_objectKeys: "mset (objectKeys obj) = mset (map fst (ownProps obj))"
  by (simp add: objectKeys_def Let_def)



lemma foldedCode_lt: "foldedCode c < 256"
proof -
  have "(of_char c :: nat) < 256" by simp
  then show ?thesis by (auto simp: foldedCode_def Let_def)
qed

lemma of_char_toLowerCase: "(of_char (toLowerCase c) :: nat) = foldedCode c"
  using foldedCode_lt [of c] by (simp add: toLowerCase_def)

lemma foldedCode_toLowerCase: "foldedCode (toLowerCase c) = foldedCode c"
proof -
  have "foldedCode (toLowerCase c) = (let n = foldedCode c in if (65 \<le> n \<and> n \<le> 90) \<or> (192 \<le> n \<and> n \<le> 222 \<and> n \<noteq> 215) then n + 32 else n)"
    unfolding foldedCode_def [of "toLowerCase c"] of_char_toLowerCase ..
  also have "\<dots> = foldedCode c"
    by (auto simp: foldedCode_def Let_def)
  finally show ?thesis .
qed

lemma isDigit_toLowerCase: "isDigit (toLowerCase c) = isDigit c"
  unfolding isDigit_def of_char_toLowerCase by (auto simp: foldedCode_def Let_def)

lemma digitValue_toLowerCase: "isDigit c \<Longrightarrow> digitValue (toLowerCase c) = digitValue c"
  unfolding digitValue_def isDigit_def of_char_toLowerCase by (auto simp: foldedCode_def Let_def)

lemma naturalKeyFrom_toLowerCase: "naturalKeyFrom run (map toLowerCase s) = naturalKeyFrom run s"
  by (induction s arbitrary: run)
     (simp_all add: isDigit_toLowerCase digitValue_toLowerCase foldedCode_toLowerCase)

lemma naturalKey_toLowerCase: "naturalKey (map toLowerCase s) = naturalKey s"
  by (simp add: naturalKey_def naturalKeyFrom_toLowerCase)

lemma naturalKeyFrom_digits:
  "list_all isDigit ds \<Longrightarrow> ds \<noteq> [] \<Longrightarrow>
   naturalKeyFrom run (ds @ rest) =
   naturalKeyFrom (Some (foldl (\<lambda>n c. 10 * n + digitValue c) (runValue run) ds)) rest"
proof (induction ds arbitrary: run)
  case Nil
  then show ?case by simp
next
  case (Cons d ds)
  show ?case
  proof (cases "ds = []")
    case True
    with Cons.prems show ?thesis by simp
  next
    case False
    with Cons show ?thesis by simp
  qed
qed

lemma naturalKeyFrom_prefix:
  "p \<noteq> [] \<Longrightarrow> \<not> isDigit (last p) \<Longrightarrow>
   naturalKeyFrom run (p @ rest) = naturalKeyFrom run p @ naturalKeyFrom None rest"
proof (induction p arbitrary: run)
  case Nil
  then show ?case by simp
next
  case (Cons c cs)
  show ?case
  proof (cases "cs = []")
    case True
    with Cons.prems show ?thesis by simp
  next
    case False
    with Cons show ?thesis by simp
  qed
qed

lemma naturalKeyFrom_run_end:
  "q = [] \<or> \<not> isDigit (hd q) \<Longrightarrow> naturalKeyFrom (Some v) q = (48, v) # naturalKeyFrom None q"
  by (cases q) auto

lemma naturalKey_embedded:
  assumes "p = [] \<or> \<not> isDigit (last p)" "list_all isDigit ds" "ds \<noteq> []"
    "q = [] \<or> \<not> isDigit (hd q)"
  shows "naturalKey (p @ ds @ q) = naturalKey p @ (48, decimalValue ds) # naturalKey q"
proof -
  have a: "naturalKeyFrom None (ds @ q) = (48, decimalValue ds) # naturalKeyFrom None q"
    using assms by (simp add: naturalKeyFrom_digits naturalKeyFrom_run_end decimalValue_def)
  show ?thesis
  proof (cases "p = []")
    case True
    with a show ?thesis by (simp add: naturalKey_def)
  next
    case False
    with assms(1) have "\<not> isDigit (last p)" by simp
    with False a show ?thesis by (simp add: naturalKey_def naturalKeyFrom_prefix)
  qed
qed

lemma compareKeys_common_prefix: "compareKeys (k @ xs) (k @ ys) = compareKeys xs ys"
  by (induction k) (simp_all add: compareEntry_def compareNat_def)

lemma naturalCompare_embedded:
  assumes "p = [] \<or> \<not> isDigit (last p)"
    "list_all isDigit ds1" "ds1 \<noteq> []" "q1 = [] \<or> \<not> isDigit (hd q1)"
    "list_all isDigit ds2" "ds2 \<noteq> []" "q2 = [] \<or> \<not> isDigit (hd q2)"
    "decimalValue ds1 < decimalValue ds2"
  shows "naturalCompare (p @ ds1 @ q1) (p @ ds2 @ q2) < 0"
  using assms
  by (simp add: naturalCompare_def naturalKey_embedded compareKeys_common_prefix
      compareEntry_def compareNat_def)

lemmas eval_defs =
  saveWorkspace_def isBlank_def trim_def isWhiteSpace_def captureFolderState_def setProp_def
  hasOwn_def quietHost_def emptyWorld_def emptyStorage_def logMsg_def emit_def
  getWorkspaceNames_def objectKeys_def isArrayIndex_def isDigit_def jsSort_def
  naturalCompare_def naturalKey_def digitValue_def foldedCode_def compareEntry_def
  compareNat_def Let_def notesWorld_def

lemma notes_keys: "map fst (ownProps (workspaces (storage notesWorld))) = [''Notes 2'', ''Notes 10'', ''Notes 1'']"
  by (simp add: eval_defs)

lemma notes_list: "getWorkspaceNames (storage notesWorld) = [''Notes 1'', ''Notes 2'', ''Notes 10'']"
  by (simp add: eval_defs)

text \<open>
  Claim C5. The natural comparator is a total order up to names that are equal for
  ordering: a name compares equal to itself, swapping the arguments negates the result,
  any two names are comparable, the order is transitive, and two names each at most
  the other compare equal, which is the case exactly when they have the same sort key.
  Letter case is ignored. Two names that differ in one embedded run of digits (the
  text before it the same, not ending in a digit) are ordered by the numeric values of
  the runs. ``Workspace 2'' sorts before ``Workspace 10'', and the store in which
  ``Notes 2'', ``Notes 10'', ``Notes 1'' were created in that order lists them as
  ``Notes 1'', ``Notes 2'', ``Notes 10''.
\<close>

theorem natural_comparator_is_total_preorder:
  "naturalCompare a a = 0
   \<and> naturalCompare b a = - naturalCompare a b
   \<and> (naturalCompare a b \<le> 0 \<or> naturalCompare b a \<le> 0)
   \<and> (naturalCompare a b \<le> 0 \<and> naturalCompare b c \<le> 0 \<longrightarrow> naturalCompare a c \<le> 0)
   \<and> (naturalCompare a b \<le> 0 \<and> naturalCompare b a \<le> 0 \<longrightarrow> naturalCompare a b = 0)
   \<and> ((naturalCompare a b = 0) = (naturalKey a = naturalKey b))
   \<and> naturalCompare (map toLowerCase a) b = naturalCompare a b
   \<and> ((p = [] \<or> \<not> isDigit (last p))
        \<and> list_all isDigit ds1 \<and> ds1 \<noteq> [] \<and> (q1 = [] \<or> \<not> isDigit (hd q1))
        \<and> list_all isDigit ds2 \<and> ds2 \<noteq> [] \<and> (q2 = [] \<or> \<not> isDigit (hd q2))
        \<and> decimalValue ds1 < decimalValue ds2 \<longrightarrow>
      naturalCompare (p @ ds1 @ q1) (p @ ds2 @ q2) < 0)
   \<and> naturalCompare ''Workspace 2'' ''Workspace 10'' < 0
   \<and> getWorkspaceNames (storage notesWorld) = [''Notes 1'', ''Notes 2'', ''Notes 10'']"
proof -
  have flip: "naturalCompare b a = - naturalCompare a b"
    by (simp add: naturalCompare_def compareKeys_flip [of "naturalKey a" "naturalKey b"])
  have anti: "naturalCompare a b \<le> 0 \<and> naturalCompare b a \<le> 0 \<longrightarrow> naturalCompare a b = 0"
    using flip by simp
  have tr: "naturalCompare a b \<le> 0 \<and> naturalCompare b c \<le> 0 \<longrightarrow> naturalCompare a c \<le> 0"
    using naturalCompare_trans [of a b c] by blast
  have eq: "(naturalCompare a b = 0) = (naturalKey a = naturalKey b)"
    by (simp add: naturalCompare_def compareKeys_eq0)
  have low: "naturalCompare (map toLowerCase a) b = naturalCompare a b"
    by (simp add: naturalCompare_def naturalKey_toLowerCase)
  have emb: "(p = [] \<or> \<not> isDigit (last p))
        \<and> list_all isDigit ds1 \<and> ds1 \<noteq> [] \<and> (q1 = [] \<or> \<not> isDigit (hd q1))
        \<and> list_all isDigit ds2 \<and> ds2 \<noteq> [] \<and> (q2 = [] \<or> \<not> isDigit (hd q2))
        \<and> decimalValue ds1 < decimalValue ds2 \<longrightarrow>
      naturalCompare (p @ ds1 @ q1) (p @ ds2 @ q2) < 0"
    using naturalCompare_embedded [of p ds1 q1 ds2 q2] by blast
  have ex: "naturalCompare ''Workspace 2'' ''Workspace 10'' < 0"
    by (simp add: naturalCompare_def naturalKey_def isDigit_def digitValue_def foldedCode_def
        compareEntry_def compareNat_def)
  have refl: "naturalCompare a a = 0"
    by (simp add: naturalCompare_def compareKeys_self)
  from refl flip naturalCompare_total [of a b] tr anti eq low emb ex notes_list
  show ?thesis by (intro conjI)
qed

theorem natural_comparator_is_total_preorder_witness:
  "naturalCompare ''alpha 7'' ''Alpha 07'' = 0
   \<and> naturalKey ''alpha 7'' = naturalKey ''Alpha 07''
   \<and> naturalCompare ''Notes 2'' ''Notes 10'' < 0
   \<and> naturalCompare ''Notes 1'' ''Notes 10'' \<le> 0"
proof -
  have k: "naturalKey ''alpha 7'' = naturalKey ''Alpha 07''"
    by (simp add: naturalKey_def isDigit_def digitValue_def foldedCode_def)
  have d: "(''Notes '' = [] \<or> \<not> isDigit (last ''Notes ''))
        \<and> list_all isDigit ''2'' \<and> ''2'' \<noteq> [] \<and> ([] = [] \<or> \<not> isDigit (hd []))
        \<and> list_all isDigit ''10'' \<and> ''10'' \<noteq> [] \<and> ([] = [] \<or> \<not> isDigit (hd []))
        \<and> decimalValue ''2'' < decimalValue ''10''"
    by (simp add: isDigit_def decimalValue_def digitValue_def)
  have l1: "naturalCompare ''Notes 1'' ''Notes 2'' \<le> 0"
    by (simp add: naturalCompare_def naturalKey_def isDigit_def digitValue_def foldedCode_def
        compareEntry_def compareNat_def)
  show ?thesis
    using natural_comparator_is_total_preorder
      [of "''alpha 7''" "''Alpha 07''" "''Notes 1''" "''Notes ''" "''2''" "[]" "''10''" "[]"]
      natural_comparator_is_total_preorder
      [of "''Notes 1''" "''Notes 2''" "''Notes 10''" "''Notes ''" "''2''" "[]" "''10''" "[]"]
      k d l1
    by simp
qed

lemma objectKeys_no_index:
  "list_all (\<lambda>k. \<not> isArrayIndex k) (map fst (ownProps obj)) \<Longrightarrow>
   objectKeys obj = map fst (ownProps obj)"
proof -
  assume a: "list_all (\<lambda>k. \<not> isArrayIndex k) (map fst (ownProps obj))"
  then have "filter isArrayIndex (map fst (ownProps obj)) = []"
    by (auto simp: list_all_iff filter_empty_conv)
  moreover from a have "filter (\<lambda>k. \<not> isArrayIndex k) (map fst (ownProps obj)) = map fst (ownProps obj)"
    by (auto simp: list_all_iff)
  ultimately show ?thesis by (simp add: objectKeys_def Let_def)
qed

text \<open>
  The list of names. \<^verbatim>\<open>getWorkspaceNames\<close> returns all stored names (each own key of the
  workspaces object, once for each occurrence) ordered by the natural comparator; it
  takes no flag, and the switcher's \<^verbatim>\<open>getItems\<close> returns it whatever the settings are. It
  is a function of the storage and returns a new list: nothing is mutated. The earlier
  switcher, over the core plugin's workspaces, read the flag: sorted when set, otherwise
  the order of \<^verbatim>\<open>Object.keys\<close>, which is creation order when no name is an array index.
\<close>

lemma getWorkspaceNames_sorted_permutation:
  "mset (getWorkspaceNames s) = mset (map fst (ownProps (workspaces s)))
   \<and> sorted_wrt (\<lambda>a b. naturalCompare a b \<le> 0) (getWorkspaceNames s)
   \<and> getItems (p\<lparr>settings := st\<rparr>) = getWorkspaceNames (storage (manager p))
   \<and> (sortWorkspacesAlphabetically st \<longrightarrow>
        mset (getItemsEarlier st (Some obj)) = mset (map fst (ownProps obj))
        \<and> sorted_wrt (\<lambda>a b. naturalCompare a b \<le> 0) (getItemsEarlier st (Some obj)))
   \<and> (\<not> sortWorkspacesAlphabetically st \<longrightarrow>
        getItemsEarlier st (Some obj) = objectKeys obj
        \<and> (list_all (\<lambda>k. \<not> isArrayIndex k) (map fst (ownProps obj)) \<longrightarrow>
             getItemsEarlier st (Some obj) = map fst (ownProps obj)))"
proof -
  have srt: "sorted_wrt (\<lambda>a b. naturalCompare a b \<le> 0) (jsSort naturalCompare xs)" for xs
    by (rule sorted_jsSort [OF naturalCompare_total naturalCompare_trans])
  show ?thesis
    using srt
    by (auto simp: getWorkspaceNames_def getItems_def getItemsEarlier_def mset_jsSort
        mset_objectKeys objectKeys_no_index)
qed

lemma getItemsEarlier_example:
  "getItems (unsortedPlugin\<lparr>settings := DEFAULT_SETTINGS\<rparr>) = getItems unsortedPlugin
   \<and> getItemsEarlier DEFAULT_SETTINGS (Some (workspaces (storage notesWorld)))
       = [''Notes 1'', ''Notes 2'', ''Notes 10'']
   \<and> getItemsEarlier (settings unsortedPlugin) (Some (workspaces (storage notesWorld)))
       = [''Notes 2'', ''Notes 10'', ''Notes 1'']"
proof -
  have a: "sortWorkspacesAlphabetically DEFAULT_SETTINGS"
    by (simp add: DEFAULT_SETTINGS_def)
  have b: "\<not> sortWorkspacesAlphabetically (settings unsortedPlugin)"
    by (simp add: unsortedPlugin_def DEFAULT_SETTINGS_def)
  have c: "list_all (\<lambda>k. \<not> isArrayIndex k) (map fst (ownProps (workspaces (storage notesWorld))))"
    by (simp add: notes_keys isArrayIndex_def isDigit_def)
  have d: "getItemsEarlier DEFAULT_SETTINGS (Some (workspaces (storage notesWorld)))
       = [''Notes 1'', ''Notes 2'', ''Notes 10'']"
    using a notes_list by (simp add: getItemsEarlier_def getWorkspaceNames_def)
  have e: "getItemsEarlier (settings unsortedPlugin) (Some (workspaces (storage notesWorld)))
       = map fst (ownProps (workspaces (storage notesWorld)))"
    using getWorkspaceNames_sorted_permutation
        [where s = "storage notesWorld" and p = unsortedPlugin and st = "settings unsortedPlugin"
           and obj = "workspaces (storage notesWorld)"] b c
    by blast
  have f: "getItems (unsortedPlugin\<lparr>settings := DEFAULT_SETTINGS\<rparr>) = getItems unsortedPlugin"
    by (simp add: getItems_def)
  from d e f show ?thesis by (simp add: notes_keys)
qed

text \<open>
  Claim C6. The claim: the list is in natural order when alphabetical sorting is
  enabled and in insertion order when it is disabled. The switcher's \<^verbatim>\<open>getItems\<close> stands
  under the heading ``Get list of workspaces (sorted if enabled)'' and the settings tab
  offers the toggle, but the code does not read the flag. After saving ``Notes 2'',
  ``Notes 10'' and ``Notes 1'', in that order, with sorting disabled, the list is
  ``Notes 1'', ``Notes 2'', ``Notes 10'': the natural order, the same list as with sorting
  enabled, and not the insertion order, which the earlier switcher returns for the same
  object and the same settings.
\<close>

theorem list_ignores_the_sort_flag:
  "sortWorkspacesAlphabetically (settings unsortedPlugin) = False
   \<and> map fst (ownProps (workspaces (storage (manager unsortedPlugin)))) =
       [''Notes 2'', ''Notes 10'', ''Notes 1'']
   \<and> getItems unsortedPlugin = [''Notes 1'', ''Notes 2'', ''Notes 10'']
   \<and> sortWorkspacesAlphabetically DEFAULT_SETTINGS = True
   \<and> getItems (unsortedPlugin\<lparr>settings := DEFAULT_SETTINGS\<rparr>) = [''Notes 1'', ''Notes 2'', ''Notes 10'']
   \<and> getItemsEarlier (settings unsortedPlugin) (Some (workspaces (storage (manager unsortedPlugin))))
       = [''Notes 2'', ''Notes 10'', ''Notes 1'']"
proof -
  have keys: "objectKeys (workspaces (storage notesWorld)) = [''Notes 2'', ''Notes 10'', ''Notes 1'']"
    by (simp add: objectKeys_def Let_def notes_keys isArrayIndex_def isDigit_def)
  have mgr: "manager unsortedPlugin = notesWorld"
    by (simp add: unsortedPlugin_def)
  have off: "sortWorkspacesAlphabetically (settings unsortedPlugin) = False"
    by (simp add: unsortedPlugin_def DEFAULT_SETTINGS_def)
  have on: "sortWorkspacesAlphabetically DEFAULT_SETTINGS = True"
    by (simp add: DEFAULT_SETTINGS_def)
  have a: "map fst (ownProps (workspaces (storage (manager unsortedPlugin)))) =
       [''Notes 2'', ''Notes 10'', ''Notes 1'']"
    by (simp add: mgr notes_keys)
  have b: "getItems unsortedPlugin = [''Notes 1'', ''Notes 2'', ''Notes 10'']"
    by (simp add: getItems_def mgr notes_list)
  have c: "getItems (unsortedPlugin\<lparr>settings := DEFAULT_SETTINGS\<rparr>) = [''Notes 1'', ''Notes 2'', ''Notes 10'']"
    by (simp add: getItems_def mgr notes_list)
  have d: "getItemsEarlier (settings unsortedPlugin) (Some (workspaces (storage (manager unsortedPlugin))))
       = [''Notes 2'', ''Notes 10'', ''Notes 1'']"
    by (simp add: getItemsEarlier_def off mgr keys)
  from off a b on c d show ?thesis by (intro conjI)
qed

section \<open>Restoring the navigation layout\<close>

lemma restoreSplit_target:
  "fst (restoreSplit sd b spo) =
     (case spo of None \<Rightarrow> None
      | Some sp \<Rightarrow> if collapsed sp = None then Some sp else Some (sp\<lparr>collapsed := Some (\<not> b)\<rparr>))"
  by (cases spo; cases b)
     (auto simp: restoreSplit_def expand_def collapse_def isCollapsed_def split: option.splits)

lemma restoreSplitEarlier_target:
  "fst (restoreSplitEarlier sd b spo) =
     (case spo of None \<Rightarrow> None
      | Some sp \<Rightarrow> if \<not> b \<or> collapsed sp \<noteq> None then Some (sp\<lparr>collapsed := Some (\<not> b)\<rparr>) else Some sp)"
  by (cases spo; cases b)
     (auto simp: restoreSplitEarlier_def expand_def collapse_def isCollapsed_def split: option.splits)

lemma restoreSplit_settled:
  "snd (restoreSplit sd b (fst (restoreSplit sd b spo))) = []"
  "fst (restoreSplit sd b (fst (restoreSplit sd b spo))) = fst (restoreSplit sd b spo)"
  by (cases spo; cases b;
      auto simp: restoreSplit_def expand_def collapse_def isCollapsed_def split: option.splits)+

lemma restoreSplitEarlier_settled:
  "snd (restoreSplitEarlier sd b (fst (restoreSplitEarlier sd b spo))) = []"
  "fst (restoreSplitEarlier sd b (fst (restoreSplitEarlier sd b spo))) = fst (restoreSplitEarlier sd b spo)"
  by (cases spo; cases b;
      auto simp: restoreSplitEarlier_def expand_def collapse_def isCollapsed_def split: option.splits)+

lemma restoreSplit_noop:
  "collapsed sp = Some (\<not> b) \<Longrightarrow> restoreSplit sd b (Some sp) = (Some sp, [])"
  "collapsed sp = Some (\<not> b) \<Longrightarrow> restoreSplitEarlier sd b (Some sp) = (Some sp, [])"
  by (cases b; auto simp: restoreSplit_def restoreSplitEarlier_def isCollapsed_def)+

lemma restoreWith_idem:
  assumes s1: "\<And>sd b spo. snd (one sd b (fst (one sd b spo))) = []"
    and s2: "\<And>sd b spo. fst (one sd b (fst (one sd b spo))) = fst (one sd b spo)"
  shows "restoreWith one st nl name (fst (restoreWith one st nl name sb)) =
         (fst (restoreWith one st nl name sb), [])"
  by (auto simp: restoreWith_def Let_def s1 s2 split: option.splits)

text \<open>
  Claim C9. Restoring the navigation layout is idempotent, in the latest revision and
  in the earlier one: a second restore with the same snapshot leaves the sidebars as
  the first one left them and makes no host call; a sidebar that already is in the
  state the snapshot asks for is left alone and neither expanded nor collapsed. The
  restore does nothing when navigation memory is off, when the layout is maintained
  across workspaces or when the workspace has no snapshot; otherwise a sidebar whose
  \<^verbatim>\<open>collapsed\<close> is defined ends open exactly when the snapshot says open.
\<close>

theorem restore_navigation_layout_idempotent:
  "restoreNavigationLayout st nl name (fst (restoreNavigationLayout st nl name sb)) =
     (fst (restoreNavigationLayout st nl name sb), [])
   \<and> restoreNavigationLayoutEarlier st nl name (fst (restoreNavigationLayoutEarlier st nl name sb)) =
     (fst (restoreNavigationLayoutEarlier st nl name sb), [])
   \<and> (\<forall>lay sp. nl name = Some lay \<and> leftSplit sb = Some sp
         \<and> collapsed sp = Some (\<not> leftSidebarOpen lay) \<longrightarrow>
        leftSplit (fst (restoreNavigationLayout st nl name sb)) = leftSplit sb
        \<and> Expand LeftSide \<notin> set (snd (restoreNavigationLayout st nl name sb))
        \<and> Collapse LeftSide \<notin> set (snd (restoreNavigationLayout st nl name sb))
        \<and> leftSplit (fst (restoreNavigationLayoutEarlier st nl name sb)) = leftSplit sb
        \<and> Expand LeftSide \<notin> set (snd (restoreNavigationLayoutEarlier st nl name sb))
        \<and> Collapse LeftSide \<notin> set (snd (restoreNavigationLayoutEarlier st nl name sb)))
   \<and> (\<forall>lay sp. nl name = Some lay \<and> rightSplit sb = Some sp
         \<and> collapsed sp = Some (\<not> rightSidebarOpen lay) \<longrightarrow>
        rightSplit (fst (restoreNavigationLayout st nl name sb)) = rightSplit sb
        \<and> Expand RightSide \<notin> set (snd (restoreNavigationLayout st nl name sb))
        \<and> Collapse RightSide \<notin> set (snd (restoreNavigationLayout st nl name sb))
        \<and> rightSplit (fst (restoreNavigationLayoutEarlier st nl name sb)) = rightSplit sb
        \<and> Expand RightSide \<notin> set (snd (restoreNavigationLayoutEarlier st nl name sb))
        \<and> Collapse RightSide \<notin> set (snd (restoreNavigationLayoutEarlier st nl name sb)))
   \<and> (\<not> rememberNavigationLayout st \<or> maintainLayoutAcrossWorkspaces st \<or> nl name = None \<longrightarrow>
        restoreNavigationLayout st nl name sb = (sb, []))
   \<and> (rememberNavigationLayout st \<and> \<not> maintainLayoutAcrossWorkspaces st \<longrightarrow>
        (\<forall>lay sp. nl name = Some lay \<and> leftSplit sb = Some sp \<and> collapsed sp \<noteq> None \<longrightarrow>
           map_option collapsed (leftSplit (fst (restoreNavigationLayout st nl name sb)))
             = Some (Some (\<not> leftSidebarOpen lay)))
      \<and> (\<forall>lay sp. nl name = Some lay \<and> rightSplit sb = Some sp \<and> collapsed sp \<noteq> None \<longrightarrow>
           map_option collapsed (rightSplit (fst (restoreNavigationLayout st nl name sb)))
             = Some (Some (\<not> rightSidebarOpen lay))))"
proof -
  have A: "restoreNavigationLayout st nl name (fst (restoreNavigationLayout st nl name sb)) =
     (fst (restoreNavigationLayout st nl name sb), [])"
    unfolding restoreNavigationLayout_def
    by (rule restoreWith_idem) (simp_all add: restoreSplit_settled)
  have B: "restoreNavigationLayoutEarlier st nl name (fst (restoreNavigationLayoutEarlier st nl name sb)) =
     (fst (restoreNavigationLayoutEarlier st nl name sb), [])"
    unfolding restoreNavigationLayoutEarlier_def
    by (rule restoreWith_idem) (simp_all add: restoreSplitEarlier_settled)
  have calls: "\<And>sd b spo x. x \<in> set (snd (restoreSplit sd b spo)) \<Longrightarrow> x = Expand sd \<or> x = Collapse sd"
    "\<And>sd b spo x. x \<in> set (snd (restoreSplitEarlier sd b spo)) \<Longrightarrow> x = Expand sd \<or> x = Collapse sd"
    by (auto simp: restoreSplit_def restoreSplitEarlier_def split: option.splits if_splits)
  have C: "leftSplit (fst (restoreNavigationLayout st nl name sb)) = leftSplit sb
        \<and> Expand LeftSide \<notin> set (snd (restoreNavigationLayout st nl name sb))
        \<and> Collapse LeftSide \<notin> set (snd (restoreNavigationLayout st nl name sb))
        \<and> leftSplit (fst (restoreNavigationLayoutEarlier st nl name sb)) = leftSplit sb
        \<and> Expand LeftSide \<notin> set (snd (restoreNavigationLayoutEarlier st nl name sb))
        \<and> Collapse LeftSide \<notin> set (snd (restoreNavigationLayoutEarlier st nl name sb))"
    if "nl name = Some lay" "leftSplit sb = Some sp" "collapsed sp = Some (\<not> leftSidebarOpen lay)"
    for lay sp
    using that
    by (auto simp: restoreNavigationLayout_def restoreNavigationLayoutEarlier_def restoreWith_def
        Let_def restoreSplit_noop dest: calls)
  have D: "rightSplit (fst (restoreNavigationLayout st nl name sb)) = rightSplit sb
        \<and> Expand RightSide \<notin> set (snd (restoreNavigationLayout st nl name sb))
        \<and> Collapse RightSide \<notin> set (snd (restoreNavigationLayout st nl name sb))
        \<and> rightSplit (fst (restoreNavigationLayoutEarlier st nl name sb)) = rightSplit sb
        \<and> Expand RightSide \<notin> set (snd (restoreNavigationLayoutEarlier st nl name sb))
        \<and> Collapse RightSide \<notin> set (snd (restoreNavigationLayoutEarlier st nl name sb))"
    if "nl name = Some lay" "rightSplit sb = Some sp" "collapsed sp = Some (\<not> rightSidebarOpen lay)"
    for lay sp
    using that
    by (auto simp: restoreNavigationLayout_def restoreNavigationLayoutEarlier_def restoreWith_def
        Let_def restoreSplit_noop dest: calls)
  have E: "restoreNavigationLayout st nl name sb = (sb, [])"
    if "\<not> rememberNavigationLayout st \<or> maintainLayoutAcrossWorkspaces st \<or> nl name = None"
    using that by (auto simp: restoreNavigationLayout_def restoreWith_def)
  have F: "map_option collapsed (leftSplit (fst (restoreNavigationLayout st nl name sb)))
             = Some (Some (\<not> leftSidebarOpen lay))"
    if "rememberNavigationLayout st" "\<not> maintainLayoutAcrossWorkspaces st"
      "nl name = Some lay" "leftSplit sb = Some sp" "collapsed sp \<noteq> None" for lay sp
    using that
    by (simp add: restoreNavigationLayout_def restoreWith_def Let_def restoreSplit_target)
  have G: "map_option collapsed (rightSplit (fst (restoreNavigationLayout st nl name sb)))
             = Some (Some (\<not> rightSidebarOpen lay))"
    if "rememberNavigationLayout st" "\<not> maintainLayoutAcrossWorkspaces st"
      "nl name = Some lay" "rightSplit sb = Some sp" "collapsed sp \<noteq> None" for lay sp
    using that
    by (simp add: restoreNavigationLayout_def restoreWith_def Let_def restoreSplit_target)
  show ?thesis
    apply (intro conjI allI impI)
    using A B C D E F G by blast+
qed


theorem restore_navigation_layout_idempotent_witness:
  "fst (restoreNavigationLayout DEFAULT_SETTINGS exampleLayouts ''Research'' exampleSidebars) =
     \<lparr>leftSplit = Some \<lparr>collapsed = Some False, activeViewType = Some ''file-explorer'',
                          offsetWidth = Some 0\<rparr>,
      rightSplit = rightSplit exampleSidebars\<rparr>
   \<and> snd (restoreNavigationLayout DEFAULT_SETTINGS exampleLayouts ''Research'' exampleSidebars) =
       [Expand LeftSide]
   \<and> restoreNavigationLayout DEFAULT_SETTINGS exampleLayouts ''Research''
       (fst (restoreNavigationLayout DEFAULT_SETTINGS exampleLayouts ''Research'' exampleSidebars)) =
     (fst (restoreNavigationLayout DEFAULT_SETTINGS exampleLayouts ''Research'' exampleSidebars), [])"
proof -
  have r: "exampleLayouts ''Research'' =
      Some \<lparr>leftSidebarOpen = True, rightSidebarOpen = False,
         leftSidebarTab = Some ''file-explorer'', rightSidebarTab = Some ''outline'',
         leftSidebarWidth = Some 300, rightSidebarWidth = Some 0\<rparr>
      \<and> rightSplit exampleSidebars = Some \<lparr>collapsed = Some True, activeViewType = Some ''outline'',
                           offsetWidth = Some 0\<rparr>
      \<and> collapsed \<lparr>collapsed = Some True, activeViewType = Some ''outline'',
                           offsetWidth = Some 0\<rparr> = Some (\<not> rightSidebarOpen \<lparr>leftSidebarOpen = True, rightSidebarOpen = False,
         leftSidebarTab = Some ''file-explorer'', rightSidebarTab = Some ''outline'',
         leftSidebarWidth = Some 300, rightSidebarWidth = Some 0\<rparr>)"
    by (simp add: exampleLayouts_def exampleSidebars_def)
  have l: "leftSplit (fst (restoreNavigationLayout DEFAULT_SETTINGS exampleLayouts ''Research'' exampleSidebars))
      = Some \<lparr>collapsed = Some False, activeViewType = Some ''file-explorer'', offsetWidth = Some 0\<rparr>"
    by (simp add: restoreNavigationLayout_def restoreWith_def restoreSplit_def DEFAULT_SETTINGS_def
        exampleLayouts_def exampleSidebars_def isCollapsed_def expand_def Let_def)
  have c: "snd (restoreNavigationLayout DEFAULT_SETTINGS exampleLayouts ''Research'' exampleSidebars) =
       [Expand LeftSide]"
    by (simp add: restoreNavigationLayout_def restoreWith_def restoreSplit_def DEFAULT_SETTINGS_def
        exampleLayouts_def exampleSidebars_def isCollapsed_def expand_def Let_def)
  have t: "rightSplit (fst (restoreNavigationLayout DEFAULT_SETTINGS exampleLayouts ''Research'' exampleSidebars))
       = rightSplit exampleSidebars
     \<and> restoreNavigationLayout DEFAULT_SETTINGS exampleLayouts ''Research''
       (fst (restoreNavigationLayout DEFAULT_SETTINGS exampleLayouts ''Research'' exampleSidebars)) =
     (fst (restoreNavigationLayout DEFAULT_SETTINGS exampleLayouts ''Research'' exampleSidebars), [])"
    using restore_navigation_layout_idempotent
      [of DEFAULT_SETTINGS exampleLayouts "''Research''" exampleSidebars] r
    by blast
  have eq: "x = \<lparr>leftSplit = leftSplit x, rightSplit = rightSplit x\<rparr>" for x :: sidebars
    by simp
  show ?thesis
    using l c t
      eq [of "fst (restoreNavigationLayout DEFAULT_SETTINGS exampleLayouts ''Research'' exampleSidebars)"]
    by simp
qed

end
